theory Spec2Isabelle
  imports
    Main
    "HOL-Library.Char_ord"
    "HOL-Library.List_Lexorder"
    "HOL-Library.Product_Lexorder"
    "HOL-Library.AList"
begin

section \<open>Python values and strings\<close>

text \<open>
  The module is Python 2 code (\<^verbatim>\<open>import ConfigParser\<close>): a \<^verbatim>\<open>str\<close> is a byte string, modelled
  as \<^typ>\<open>string\<close>, and compares byte-wise lexicographically (the order of
  \<^verbatim>\<open>List_Lexorder\<close> over \<^verbatim>\<open>Char_ord\<close>).

  A value of \<^verbatim>\<open>module.params\<close> is \<^verbatim>\<open>None\<close>, a \<^verbatim>\<open>bool\<close>, a \<^verbatim>\<open>str\<close> or a list of \<^verbatim>\<open>str\<close>
  (the case that \<^verbatim>\<open>YumRepo.add\<close> tests with \<^verbatim>\<open>isinstance(value, list)\<close>).
\<close>

datatype pval = PNone | PBool bool | PStr string | PList "string list"

definition newline :: char where
  "newline = CHR 0x0A"

definition carriage_return :: char where
  "carriage_return = CHR 0x0D"

definition hexdigit :: "nat \<Rightarrow> char" where
  "hexdigit n = ''0123456789abcdef'' ! (n mod 16)"

text \<open>\<^verbatim>\<open>repr(s)\<close> of a Python 2 byte string.\<close>

definition repr_char :: "char \<Rightarrow> char \<Rightarrow> string" where
  "repr_char quote c =
     (if c = quote \<or> c = CHR 0x5C then [CHR 0x5C, c]
      else if c = CHR 0x09 then [CHR 0x5C, CHR ''t'']
      else if c = newline then [CHR 0x5C, CHR ''n'']
      else if c = carriage_return then [CHR 0x5C, CHR ''r'']
      else if (of_char c :: nat) < 32 \<or> 127 \<le> (of_char c :: nat)
        then [CHR 0x5C, CHR ''x'', hexdigit (of_char c div 16), hexdigit (of_char c)]
      else [c])"

definition py_repr :: "string \<Rightarrow> string" where
  "py_repr s =
     (let quote = (if CHR 0x27 \<in> set s \<and> CHR 0x22 \<notin> set s then CHR 0x22 else CHR 0x27)
      in [quote] @ concat (map (repr_char quote) s) @ [quote])"

text \<open>\<^verbatim>\<open>sep.join(xs)\<close>.\<close>

fun py_join :: "string \<Rightarrow> string list \<Rightarrow> string" where
  "py_join sep [] = []"
| "py_join sep [x] = x"
| "py_join sep (x # y # ys) = x @ sep @ py_join sep (y # ys)"

text \<open>\<^verbatim>\<open>"%s" % v\<close>, which is \<^verbatim>\<open>str(v)\<close>.\<close>

fun py_str :: "pval \<Rightarrow> string" where
  "py_str PNone = ''None''"
| "py_str (PBool b) = (if b then ''True'' else ''False'')"
| "py_str (PStr s) = s"
| "py_str (PList xs) = ''['' @ py_join '', '' (map py_repr xs) @ '']''"

text \<open>
  \<^verbatim>\<open>s.splitlines()\<close> of a Python 2 byte string: lines end at a line feed, a carriage
  return, or a carriage return followed by a line feed; the terminators are dropped and no
  empty last line is produced.
\<close>

fun split_acc :: "string \<Rightarrow> string \<Rightarrow> string list" where
  "split_acc cur [] = (if cur = [] then [] else [cur])"
| "split_acc cur (c # cs) =
     (if c = newline then cur # split_acc [] cs
      else if c = carriage_return then
        (case cs of
           [] \<Rightarrow> cur # split_acc [] cs
         | d # ds \<Rightarrow> if d = newline then cur # split_acc [] ds else cur # split_acc [] cs)
      else split_acc (cur @ [c]) cs)"

definition splitlines :: "string \<Rightarrow> string list" where
  "splitlines s = split_acc [] s"

section \<open>The file system\<close>

text \<open>
  A file system state maps a path to a regular file with its content or to a directory.
  It is an association list, so that a directory can be listed; the first entry of a path
  counts. A path is the key as the program spells it: the model does not resolve
  \<^verbatim>\<open>..\<close>, doubled slashes or links, and a relative path stands for the entry of that name
  in the working directory. Opening a path for writing fails when it is a directory and
  creates the file otherwise; removing a path fails unless it is a regular file.
\<close>

type_synonym path = string

datatype node = File string | Dir

type_synonym fs = "(path \<times> node) list"

definition os_path_isfile :: "fs \<Rightarrow> path \<Rightarrow> bool" where
  "os_path_isfile fs p = (case map_of fs p of Some (File c) \<Rightarrow> True | _ \<Rightarrow> False)"

definition os_path_isdir :: "fs \<Rightarrow> path \<Rightarrow> bool" where
  "os_path_isdir fs p = (map_of fs p = Some Dir)"

text \<open>\<^verbatim>\<open>os.path.getsize\<close> of a regular file; \<open>None\<close> stands for \<^verbatim>\<open>OSError\<close>.\<close>

definition os_path_getsize :: "fs \<Rightarrow> path \<Rightarrow> nat option" where
  "os_path_getsize fs p = (case map_of fs p of Some (File c) \<Rightarrow> Some (length c) | _ \<Rightarrow> None)"

text \<open>\<^verbatim>\<open>open(p, 'r').read()\<close>; \<open>None\<close> stands for \<^verbatim>\<open>IOError\<close>.\<close>

definition read_file :: "fs \<Rightarrow> path \<Rightarrow> string option" where
  "read_file fs p = (case map_of fs p of Some (File c) \<Rightarrow> Some c | _ \<Rightarrow> None)"

text \<open>
  \<^verbatim>\<open>open(p, 'w')\<close>, writing \<open>c\<close> and closing: the file is created or truncated and then
  holds \<open>c\<close>; \<open>None\<close> stands for \<^verbatim>\<open>IOError\<close>.
\<close>

definition write_file :: "fs \<Rightarrow> path \<Rightarrow> string \<Rightarrow> fs option" where
  "write_file fs p c = (if map_of fs p = Some Dir then None else Some (AList.update p (File c) fs))"

text \<open>\<^verbatim>\<open>os.remove(p)\<close>; \<open>None\<close> stands for \<^verbatim>\<open>OSError\<close>.\<close>

definition os_remove :: "fs \<Rightarrow> path \<Rightarrow> fs option" where
  "os_remove fs p = (case map_of fs p of Some (File c) \<Rightarrow> Some (AList.delete p fs) | _ \<Rightarrow> None)"

section \<open>Errors\<close>

text \<open>
  Every \<^verbatim>\<open>module.fail_json\<close> call of the module is one constructor, carrying the path
  that its message shows; \<open>NoResult\<close> is a run that ends without \<^verbatim>\<open>exit_json\<close>;
  \<open>Uncaught\<close> is an exception that no handler of the module
  catches, with the name of its class.
\<close>

datatype error =
    ReposDirMissing pval
  | UrlRequiredForAdd
  | CannotOpenRepoFile path
  | CannotRemoveEmptyRepoFile path
  | CannotCreateManagedFile path
  | CannotDeleteManagedFile path
  | CannotOpenManagedFile path
  | CannotDeleteUnmanagedRepoFile path
  | NameRequired
  | UrlRequired
  | DescriptionRequired
  | NoResult
  | Uncaught string

section \<open>ManagedMode\<close>

text \<open>
  The methods take \<^verbatim>\<open>self.module.check_mode\<close> and \<^verbatim>\<open>self.file\<close> as their first
  arguments and the file system as state; they return the \<^verbatim>\<open>changed\<close> flag and the new
  file system, or the error that ends the run.
\<close>

definition mm_enable :: "bool \<Rightarrow> path \<Rightarrow> fs \<Rightarrow> error + (bool \<times> fs)" where
  "mm_enable check_mode file fs =
     (let file_exists = os_path_isfile fs file in
      case (if \<not> file_exists then Inr True
            else (case os_path_getsize fs file of
                    None \<Rightarrow> Inl (Uncaught ''OSError'')
                  | Some n \<Rightarrow> Inr (0 < n))) of
        Inl e \<Rightarrow> Inl e
      | Inr False \<Rightarrow> Inr (False, fs)
      | Inr True \<Rightarrow>
          (if \<not> check_mode then
             (case write_file fs file [] of
                None \<Rightarrow> Inl (CannotCreateManagedFile file)
              | Some fs' \<Rightarrow> Inr (\<not> file_exists, fs'))
           else Inr (\<not> file_exists, fs)))"

definition mm_disable :: "bool \<Rightarrow> path \<Rightarrow> fs \<Rightarrow> error + (bool \<times> fs)" where
  "mm_disable check_mode file fs =
     (if os_path_isfile fs file then
        (if \<not> check_mode then
           (case os_remove fs file of
              None \<Rightarrow> Inl (CannotDeleteManagedFile file)
            | Some fs' \<Rightarrow> Inr (True, fs'))
         else Inr (True, fs))
      else Inr (False, fs))"

text \<open>
  \<^verbatim>\<open>add\<close> opens the ledger with mode \<^verbatim>\<open>'a+'\<close>: reading starts at the beginning of the
  file (as the C library of the systems that the module targets does it) and a write
  goes to its end.
\<close>

definition mm_add :: "bool \<Rightarrow> path \<Rightarrow> pval \<Rightarrow> fs \<Rightarrow> error + (bool \<times> fs)" where
  "mm_add check_mode file repo_file fs =
     (if os_path_isfile fs file then
        (case read_file fs file of
           None \<Rightarrow> Inl (CannotOpenManagedFile file)
         | Some content \<Rightarrow>
             (let found = (repo_file \<in> set (map PStr (splitlines content))) in
              if \<not> found then
                (if \<not> check_mode then
                   Inr (True, AList.update file (File (content @ py_str repo_file @ [newline])) fs)
                 else Inr (True, fs))
              else Inr (False, fs)))
      else Inr (False, fs))"

text \<open>The loop \<^verbatim>\<open>for line in lines: self.add(line)\<close> of \<^verbatim>\<open>remove\<close>.\<close>

fun mm_add_all :: "bool \<Rightarrow> path \<Rightarrow> string list \<Rightarrow> fs \<Rightarrow> error + fs" where
  "mm_add_all check_mode file [] fs = Inr fs"
| "mm_add_all check_mode file (line # lines) fs =
     (case mm_add check_mode file (PStr line) fs of
        Inl e \<Rightarrow> Inl e
      | Inr (c, fs') \<Rightarrow> mm_add_all check_mode file lines fs')"

text \<open>
  \<^verbatim>\<open>for i, line in enumerate(lines): if line == repo_file: found = i; break\<close>, followed
  by \<^verbatim>\<open>lines.pop(found)\<close> when an index was found: the list without the first line equal
  to \<open>repo_file\<close>, and whether there was one.
\<close>

fun pop_first :: "pval \<Rightarrow> string list \<Rightarrow> bool \<times> string list" where
  "pop_first repo_file [] = (False, [])"
| "pop_first repo_file (line # lines) =
     (if PStr line = repo_file then (True, lines)
      else (case pop_first repo_file lines of (found, rest) \<Rightarrow> (found, line # rest)))"

definition mm_remove :: "bool \<Rightarrow> path \<Rightarrow> pval \<Rightarrow> fs \<Rightarrow> error + (bool \<times> fs)" where
  "mm_remove check_mode file repo_file fs =
     (if os_path_isfile fs file then
        (case read_file fs file of
           None \<Rightarrow> Inl (CannotOpenManagedFile file)
         | Some content \<Rightarrow>
             (case pop_first repo_file (splitlines content) of
                (changed, lines) \<Rightarrow>
                  (if \<not> check_mode then
                     (case mm_enable check_mode file fs of
                        Inl e \<Rightarrow> Inl e
                      | Inr (c, fs1) \<Rightarrow>
                          (case mm_add_all check_mode file lines fs1 of
                             Inl e \<Rightarrow> Inl e
                           | Inr fs2 \<Rightarrow> Inr (changed, fs2)))
                   else Inr (changed, fs))))
      else Inr (False, fs))"


section \<open>Paths and directory listing\<close>

text \<open>\<^verbatim>\<open>os.path.join(a, b)\<close> of \<^verbatim>\<open>posixpath\<close>.\<close>

definition os_path_join :: "path \<Rightarrow> path \<Rightarrow> path" where
  "os_path_join a b =
     (if take 1 b = ''/'' then b
      else if a = [] \<or> (a \<noteq> [] \<and> last a = CHR ''/'') then a @ b
      else a @ ''/'' @ b)"

text \<open>\<^verbatim>\<open>os.path.basename(p)\<close>: what follows the last slash.\<close>

definition os_path_basename :: "path \<Rightarrow> path" where
  "os_path_basename p = rev (takeWhile (\<lambda>c. c \<noteq> CHR ''/'') (rev p))"

text \<open>
  \<^verbatim>\<open>glob("%s/*.repo" % reposdir)\<close>: the entries of the directory whose name ends with
  \<^verbatim>\<open>.repo\<close> and does not start with a dot (which \<^verbatim>\<open>*\<close> does not match), files and
  directories alike, in the order of the listing. The directory name is taken literally
  (no pattern characters in it).
\<close>

definition is_repo_name :: "string \<Rightarrow> bool" where
  "is_repo_name name =
     (name \<noteq> [] \<and> CHR ''/'' \<notin> set name \<and> take 1 name \<noteq> ''.''
      \<and> 5 \<le> length name \<and> drop (length name - 5) name = ''.repo'')"

definition glob_repo :: "fs \<Rightarrow> string \<Rightarrow> path list" where
  "glob_repo fs reposdir =
     filter (\<lambda>p. take (length reposdir + 1) p = reposdir @ ''/''
                 \<and> is_repo_name (drop (length reposdir + 1) p))
            (remdups (map fst fs))"

section \<open>The module parameters\<close>

text \<open>
  \<^verbatim>\<open>module.params\<close> is a dictionary from parameter names to values, kept as an
  association list in which the first entry of a key counts. \<^verbatim>\<open>params[k]\<close> raises
  \<^verbatim>\<open>KeyError\<close> for a missing key.
\<close>

type_synonym params = "(string \<times> pval) list"

definition py_get :: "params \<Rightarrow> string \<Rightarrow> error + pval" where
  "py_get ps k = (case map_of ps k of None \<Rightarrow> Inl (Uncaught ''KeyError'') | Some v \<Rightarrow> Inr v)"

text \<open>A value used as a path by \<^verbatim>\<open>os.path\<close>: anything but a string raises \<^verbatim>\<open>TypeError\<close>.\<close>

definition as_path :: "pval \<Rightarrow> error + path" where
  "as_path v = (case v of PStr s \<Rightarrow> Inr s | _ \<Rightarrow> Inl (Uncaught ''TypeError''))"

text \<open>\<^verbatim>\<open>x in s\<close> for strings: \<open>x\<close> occurs in \<open>s\<close> as a substring.\<close>

fun is_substring :: "string \<Rightarrow> string \<Rightarrow> bool" where
  "is_substring x [] = (x = [])"
| "is_substring x (c # cs) = (take (length x) (c # cs) = x \<or> is_substring x cs)"

text \<open>\<^verbatim>\<open>x in v\<close> for a string \<open>x\<close>: membership in a list, substring of a string,
  \<^verbatim>\<open>TypeError\<close> for \<^verbatim>\<open>None\<close> and booleans.\<close>

definition py_in :: "string \<Rightarrow> pval \<Rightarrow> error + bool" where
  "py_in x v =
     (case v of
        PList xs \<Rightarrow> Inr (x \<in> set xs)
      | PStr s \<Rightarrow> Inr (is_substring x s)
      | _ \<Rightarrow> Inl (Uncaught ''TypeError''))"

section \<open>ManagedMode.process\<close>

text \<open>\<^verbatim>\<open>os.path.basename(f)[:-5]\<close>.\<close>

definition repo_id :: "path \<Rightarrow> string" where
  "repo_id f = take (length (os_path_basename f) - 5) (os_path_basename f)"

text \<open>
  The test \<^verbatim>\<open>repo_file not in managed_files and repo_file not in
  self.params['ignore_repo_files']\<close>; the second operand is evaluated only when the first
  holds.
\<close>

definition unmanaged :: "params \<Rightarrow> string list \<Rightarrow> string \<Rightarrow> error + bool" where
  "unmanaged ps managed_files repo_file =
     (if repo_file \<notin> set managed_files then
        (case py_get ps ''ignore_repo_files'' of
           Inl e \<Rightarrow> Inl e
         | Inr v \<Rightarrow> (case py_in repo_file v of Inl e \<Rightarrow> Inl e | Inr b \<Rightarrow> Inr (\<not> b)))
      else Inr False)"

text \<open>The loop \<^verbatim>\<open>for f in repo_files\<close>, with \<^verbatim>\<open>changed\<close> and the file system as state.\<close>

fun process_loop ::
  "bool \<Rightarrow> path \<Rightarrow> params \<Rightarrow> string list \<Rightarrow> path list \<Rightarrow> bool \<Rightarrow> fs \<Rightarrow> error + (bool \<times> fs)" where
  "process_loop check_mode file ps managed_files [] changed fs = Inr (changed, fs)"
| "process_loop check_mode file ps managed_files (f # repo_files) changed fs =
     (case unmanaged ps managed_files (repo_id f) of
        Inl e \<Rightarrow> Inl e
      | Inr False \<Rightarrow> process_loop check_mode file ps managed_files repo_files changed fs
      | Inr True \<Rightarrow>
          (if \<not> check_mode then
             (case os_remove fs f of
                None \<Rightarrow> Inl (CannotDeleteUnmanagedRepoFile f)
              | Some fs1 \<Rightarrow>
                  (case mm_remove check_mode file (PStr (repo_id f)) fs1 of
                     Inl e \<Rightarrow> Inl e
                   | Inr (c, fs2) \<Rightarrow>
                       process_loop check_mode file ps managed_files repo_files True fs2))
           else process_loop check_mode file ps managed_files repo_files True fs))"

definition mm_process :: "bool \<Rightarrow> path \<Rightarrow> params \<Rightarrow> fs \<Rightarrow> error + (bool \<times> fs)" where
  "mm_process check_mode file ps fs =
     (if os_path_isfile fs file then
        (case py_get ps ''reposdir'' of
           Inl e \<Rightarrow> Inl e
         | Inr reposdir \<Rightarrow>
             (let repo_files = glob_repo fs (py_str reposdir) in
              case read_file fs file of
                None \<Rightarrow> Inl (CannotOpenManagedFile file)
              | Some content \<Rightarrow>
                  process_loop check_mode file ps (splitlines content) repo_files False fs))
      else Inr (False, fs))"


section \<open>The INI document\<close>

text \<open>
  \<^verbatim>\<open>YumRepo.repofile\<close> is a \<^verbatim>\<open>ConfigParser.RawConfigParser\<close> of the Python 2.7 standard
  library. Its state is the dictionary of the \<^verbatim>\<open>DEFAULT\<close> options and the ordered
  dictionary of the sections, each an ordered dictionary of options; both are association
  lists in insertion order. An option value is kept as the string that \<^verbatim>\<open>str\<close> gives for
  it, which is all that \<^verbatim>\<open>dump\<close> and \<^verbatim>\<open>write\<close> use. The operations below are the ones
  the module calls, with the behaviour of the library.
\<close>

record config =
  defaults :: "(string \<times> string) list"
  sections :: "(string \<times> (string \<times> string) list) list"

definition empty_config :: config where
  "empty_config = \<lparr>defaults = [], sections = []\<rparr>"

text \<open>\<^verbatim>\<open>s.lower()\<close> of a byte string: the letters A to Z.\<close>

definition lower_char :: "char \<Rightarrow> char" where
  "lower_char c =
     (if (65::nat) \<le> of_char c \<and> of_char c \<le> (90::nat) then char_of (of_char c + (32::nat)) else c)"

definition py_lower :: "string \<Rightarrow> string" where
  "py_lower s = map lower_char s"

definition cp_sections :: "config \<Rightarrow> string list" where
  "cp_sections cfg = map fst (sections cfg)"

definition cp_has_section :: "config \<Rightarrow> string \<Rightarrow> bool" where
  "cp_has_section cfg s = (s \<in> set (cp_sections cfg))"

definition cp_remove_section :: "config \<Rightarrow> string \<Rightarrow> config" where
  "cp_remove_section cfg s = cfg\<lparr>sections := AList.delete s (sections cfg)\<rparr>"

text \<open>
  \<^verbatim>\<open>add_section\<close> raises \<^verbatim>\<open>ValueError\<close> for the name \<^verbatim>\<open>default\<close> in any letter case
  and \<^verbatim>\<open>DuplicateSectionError\<close> for a section that exists.
\<close>

definition cp_add_section :: "config \<Rightarrow> string \<Rightarrow> error + config" where
  "cp_add_section cfg s =
     (if py_lower s = ''default'' then Inl (Uncaught ''ValueError'')
      else if cp_has_section cfg s then Inl (Uncaught ''DuplicateSectionError'')
      else Inr (cfg\<lparr>sections := sections cfg @ [(s, [])]\<rparr>))"

text \<open>
  \<^verbatim>\<open>set(section, option, value)\<close>: an empty section name or \<^verbatim>\<open>DEFAULT\<close> selects the
  defaults; the option name is lower-cased (\<^verbatim>\<open>optionxform\<close>).
\<close>

definition cp_set :: "config \<Rightarrow> string \<Rightarrow> string \<Rightarrow> string \<Rightarrow> error + config" where
  "cp_set cfg s option v =
     (if s = [] \<or> s = ''DEFAULT'' then
        Inr (cfg\<lparr>defaults := AList.update (py_lower option) v (defaults cfg)\<rparr>)
      else if cp_has_section cfg s then
        Inr (cfg\<lparr>sections := AList.map_entry s (AList.update (py_lower option) v) (sections cfg)\<rparr>)
      else Inl (Uncaught ''NoSectionError''))"

text \<open>
  \<^verbatim>\<open>items(section)\<close>: the defaults updated with the options of the section, without the
  key \<^verbatim>\<open>__name__\<close>.
\<close>

definition dict_update :: "('k \<times> 'v) list \<Rightarrow> ('k \<times> 'v) list \<Rightarrow> ('k \<times> 'v) list" where
  "dict_update d d2 = fold (\<lambda>(k, v). AList.update k v) d2 d"

definition cp_items :: "config \<Rightarrow> string \<Rightarrow> error + (string \<times> string) list" where
  "cp_items cfg s =
     (case map_of (sections cfg) s of
        None \<Rightarrow>
          (if s = ''DEFAULT'' then Inr (filter (\<lambda>(k, v). k \<noteq> ''__name__'') (defaults cfg))
           else Inl (Uncaught ''NoSectionError''))
      | Some d2 \<Rightarrow> Inr (filter (\<lambda>(k, v). k \<noteq> ''__name__'') (dict_update (defaults cfg) d2)))"

text \<open>\<^verbatim>\<open>str(value).replace('\n', '\n\t')\<close>.\<close>

definition replace_newlines :: "string \<Rightarrow> string" where
  "replace_newlines v = concat (map (\<lambda>c. if c = newline then [newline, CHR 0x09] else [c]) v)"

text \<open>
  \<^verbatim>\<open>write(fp)\<close>: the defaults under \<^verbatim>\<open>[DEFAULT]\<close> when there are any, then every section
  in the order of the dictionary, its options in their order, a blank line after each
  block.
\<close>

definition write_option :: "string \<times> string \<Rightarrow> string" where
  "write_option kv = fst kv @ '' = '' @ replace_newlines (snd kv) @ [newline]"

definition write_section :: "string \<times> (string \<times> string) list \<Rightarrow> string" where
  "write_section sec =
     ''['' @ fst sec @ '']'' @ [newline]
     @ concat (map write_option (filter (\<lambda>(k, v). k \<noteq> ''__name__'') (snd sec)))
     @ [newline]"

definition cp_write :: "config \<Rightarrow> string" where
  "cp_write cfg =
     (if defaults cfg \<noteq> [] then
        ''[DEFAULT]'' @ [newline] @ concat (map write_option (defaults cfg)) @ [newline]
      else [])
     @ concat (map write_section (sections cfg))"


section \<open>YumRepo\<close>

definition allowed_params :: "string list" where
  "allowed_params =
     [''async'',
      ''bandwidth'',
      ''baseurl'',
      ''cost'',
      ''deltarpm_metadata_percentage'',
      ''deltarpm_percentage'',
      ''enabled'',
      ''enablegroups'',
      ''exclude'',
      ''failovermethod'',
      ''gpgcakey'',
      ''gpgcheck'',
      ''gpgkey'',
      ''http_caching'',
      ''include'',
      ''includepkgs'',
      ''ip_resolve'',
      ''keepalive'',
      ''keepcache'',
      ''metadata_expire'',
      ''metadata_expire_filter'',
      ''metalink'',
      ''mirrorlist'',
      ''mirrorlist_expire'',
      ''name'',
      ''password'',
      ''priority'',
      ''protect'',
      ''proxy'',
      ''proxy_password'',
      ''proxy_username'',
      ''repo_gpgcheck'',
      ''retries'',
      ''s3_enabled'',
      ''skip_if_unavailable'',
      ''sslcacert'',
      ''ssl_check_cert_permissions'',
      ''sslclientcert'',
      ''sslclientkey'',
      ''sslverify'',
      ''throttle'',
      ''timeout'',
      ''ui_repoid_vars'',
      ''username'']"

definition list_params :: "string list" where
  "list_params = [''exclude'', ''includepkgs'']"

text \<open>
  \<^verbatim>\<open>__init__\<close>: the section is \<^verbatim>\<open>params['repoid']\<close>; the run fails when
  \<^verbatim>\<open>params['reposdir']\<close> is not a directory; \<^verbatim>\<open>params['dest']\<close> is set; the repo file is
  read when it exists. Reading is the library's parser: it is the parameter \<open>cp_read\<close>,
  from the text of the file to the document or to the name of the exception that the
  parser raises, which nothing catches.
  The result is the parameters, the section, the destination and the document.
\<close>

definition yum_init ::
  "(string \<Rightarrow> string + config) \<Rightarrow> params \<Rightarrow> fs \<Rightarrow> error + (params \<times> pval \<times> path \<times> config)" where
  "yum_init cp_read ps fs =
     (case py_get ps ''repoid'' of
        Inl e \<Rightarrow> Inl e
      | Inr section \<Rightarrow>
     (case py_get ps ''reposdir'' of
        Inl e \<Rightarrow> Inl e
      | Inr repos_dir_v \<Rightarrow>
     (case as_path repos_dir_v of
        Inl e \<Rightarrow> Inl e
      | Inr repos_dir \<Rightarrow>
          (if \<not> os_path_isdir fs repos_dir then Inl (ReposDirMissing repos_dir_v)
           else
     (case py_get ps ''file'' of
        Inl e \<Rightarrow> Inl e
      | Inr file_v \<Rightarrow>
          (let dest = os_path_join repos_dir (py_str file_v @ ''.repo'');
               ps' = AList.update ''dest'' (PStr dest) ps
           in if os_path_isfile fs dest then
                (case read_file fs dest of
                   None \<Rightarrow> Inr (ps', section, dest, empty_config)
                 | Some content \<Rightarrow>
                     (case cp_read content of
                        Inl exn \<Rightarrow> Inl (Uncaught exn)
                      | Inr cfg \<Rightarrow> Inr (ps', section, dest, cfg)))
              else Inr (ps', section, dest, empty_config)))))))"

text \<open>
  \<^verbatim>\<open>has_section\<close> and \<^verbatim>\<open>add_section\<close> on the value of \<^verbatim>\<open>self.section\<close>: a list is not
  hashable (\<^verbatim>\<open>TypeError\<close>), \<^verbatim>\<open>None\<close> and booleans are no section names and have no
  \<^verbatim>\<open>lower\<close> (\<^verbatim>\<open>AttributeError\<close>).
\<close>

definition has_section_v :: "config \<Rightarrow> pval \<Rightarrow> error + bool" where
  "has_section_v cfg section =
     (case section of
        PStr s \<Rightarrow> Inr (cp_has_section cfg s)
      | PList xs \<Rightarrow> Inl (Uncaught ''TypeError'')
      | _ \<Rightarrow> Inr False)"

definition add_section_v :: "config \<Rightarrow> pval \<Rightarrow> error + (string \<times> config)" where
  "add_section_v cfg section =
     (case section of
        PStr s \<Rightarrow> (case cp_add_section cfg s of Inl e \<Rightarrow> Inl e | Inr cfg' \<Rightarrow> Inr (s, cfg'))
      | _ \<Rightarrow> Inl (Uncaught ''AttributeError''))"

text \<open>\<^verbatim>\<open>remove\<close>: the section is removed if it exists.\<close>

definition yum_remove :: "pval \<Rightarrow> config \<Rightarrow> error + config" where
  "yum_remove section cfg =
     (case has_section_v cfg section of
        Inl e \<Rightarrow> Inl e
      | Inr True \<Rightarrow> (case section of PStr s \<Rightarrow> Inr (cp_remove_section cfg s) | _ \<Rightarrow> Inr cfg)
      | Inr False \<Rightarrow> Inr cfg)"

text \<open>
  The value that the loop of \<^verbatim>\<open>add\<close> passes to \<^verbatim>\<open>set\<close> for a key, as \<^verbatim>\<open>str\<close> shows it:
  a list of a list parameter is joined with spaces, a boolean becomes the integer, and
  \<^verbatim>\<open>None\<close> is not set.
\<close>

definition coerce :: "string \<Rightarrow> pval \<Rightarrow> string option" where
  "coerce key v =
     (case v of
        PNone \<Rightarrow> None
      | PBool b \<Rightarrow> Some (if b then ''1'' else ''0'')
      | PStr s \<Rightarrow> Some s
      | PList xs \<Rightarrow> Some (if key \<in> set list_params then py_join '' '' xs else py_str (PList xs)))"

text \<open>\<^verbatim>\<open>sorted(self.params.items())\<close>: the items of the dictionary in the order of their keys.\<close>

definition sorted_items :: "params \<Rightarrow> (string \<times> pval) list" where
  "sorted_items ps = sort_key fst (AList.clearjunk ps)"

text \<open>The options that the loop of \<^verbatim>\<open>add\<close> sets, in the order in which it sets them.\<close>

definition options_to_set :: "params \<Rightarrow> (string \<times> string) list" where
  "options_to_set ps =
     concat (map (\<lambda>(key, v). case coerce key v of
                                None \<Rightarrow> []
                              | Some s \<Rightarrow> if key \<in> set allowed_params then [(key, s)] else [])
                 (sorted_items ps))"

fun set_all :: "config \<Rightarrow> string \<Rightarrow> (string \<times> string) list \<Rightarrow> error + config" where
  "set_all cfg s [] = Inr cfg"
| "set_all cfg s ((key, v) # kvs) =
     (case cp_set cfg s key v of Inl e \<Rightarrow> Inl e | Inr cfg' \<Rightarrow> set_all cfg' s kvs)"

text \<open>
  \<^verbatim>\<open>add\<close>: an existing section of the name is removed, the section is added, the run
  fails when neither \<^verbatim>\<open>baseurl\<close> nor \<^verbatim>\<open>mirrorlist\<close> is given, and the options are set.
\<close>

definition url_missing :: "params \<Rightarrow> error + bool" where
  "url_missing ps =
     (case py_get ps ''baseurl'' of
        Inl e \<Rightarrow> Inl e
      | Inr b \<Rightarrow>
          (case py_get ps ''mirrorlist'' of
             Inl e \<Rightarrow> Inl e
           | Inr m \<Rightarrow> Inr (b = PNone \<and> m = PNone)))"

definition yum_add :: "params \<Rightarrow> pval \<Rightarrow> config \<Rightarrow> error + config" where
  "yum_add ps section cfg =
     (case yum_remove section cfg of
        Inl e \<Rightarrow> Inl e
      | Inr cfg1 \<Rightarrow>
     (case add_section_v cfg1 section of
        Inl e \<Rightarrow> Inl e
      | Inr (s, cfg2) \<Rightarrow>
     (case url_missing ps of
        Inl e \<Rightarrow> Inl e
      | Inr True \<Rightarrow> Inl UrlRequiredForAdd
      | Inr False \<Rightarrow> set_all cfg2 s (options_to_set ps))))"

text \<open>
  \<^verbatim>\<open>save\<close>: with at least one section the document is written to the destination with
  the library's \<^verbatim>\<open>write\<close>; with none the destination is removed.
\<close>

definition yum_save :: "path \<Rightarrow> config \<Rightarrow> fs \<Rightarrow> error + fs" where
  "yum_save dest cfg fs =
     (if length (cp_sections cfg) \<noteq> 0 then
        (case write_file fs dest (cp_write cfg) of
           None \<Rightarrow> Inl (CannotOpenRepoFile dest)
         | Some fs' \<Rightarrow> Inr fs')
      else
        (case os_remove fs dest of
           None \<Rightarrow> Inl (CannotRemoveEmptyRepoFile dest)
         | Some fs' \<Rightarrow> Inr fs'))"

text \<open>
  \<^verbatim>\<open>dump\<close>: the sections in sorted order, each with its items in sorted order and a blank
  line after it. The items of a section that \<^verbatim>\<open>sections()\<close> lists always exist.
\<close>

definition dump_option :: "string \<times> string \<Rightarrow> string" where
  "dump_option kv = fst kv @ '' = '' @ snd kv @ [newline]"

definition dump_section :: "config \<Rightarrow> string \<Rightarrow> string" where
  "dump_section cfg s =
     ''['' @ s @ '']'' @ [newline]
     @ concat (map dump_option (sort (case cp_items cfg s of Inl e \<Rightarrow> [] | Inr kvs \<Rightarrow> kvs)))
     @ [newline]"

definition yum_dump :: "config \<Rightarrow> string" where
  "yum_dump cfg = concat (map (dump_section cfg) (sort (cp_sections cfg)))"


section \<open>main\<close>

text \<open>
  \<open>main\<close> is modelled from the point where \<^verbatim>\<open>AnsibleModule\<close> has built
  \<^verbatim>\<open>module.params\<close> and the \<^verbatim>\<open>params\<close> override has been merged into it. Its result is
  the \<^verbatim>\<open>changed\<close> flag that \<^verbatim>\<open>exit_json\<close> reports and the file system that the run
  leaves.

  \<^verbatim>\<open>module.set_fs_attributes_if_different(file_args, changed)\<close> belongs to the file
  attribute handling of \<^verbatim>\<open>AnsibleModule\<close>: it returns \<^verbatim>\<open>True\<close> when \<open>changed\<close> is
  already true or when the attributes of the destination differ from the requested ones.
  The model does not track attributes; whether they differ is the parameter
  \<open>attrs_differ\<close>.
\<close>

definition bind :: "error + 'a \<Rightarrow> ('a \<Rightarrow> error + 'b) \<Rightarrow> error + 'b" where
  "bind m f = (case m of Inl e \<Rightarrow> Inl e | Inr x \<Rightarrow> f x)"

text \<open>The checks \<^verbatim>\<open>Check if required parameters are present\<close>.\<close>

definition main_checks :: "params \<Rightarrow> error + (pval \<times> pval)" where
  "main_checks ps =
     bind (py_get ps ''name'') (\<lambda>name.
     bind (py_get ps ''state'') (\<lambda>state.
       if (state = PStr ''present'' \<or> state = PStr ''absent'') \<and> name = PNone
       then Inl NameRequired
       else if state = PStr ''present'' then
         bind (py_get ps ''baseurl'') (\<lambda>baseurl.
         bind (if baseurl = PNone
               then bind (py_get ps ''mirrorlist'') (\<lambda>mirrorlist. Inr (mirrorlist = PNone))
               else Inr False) (\<lambda>no_url.
           if no_url then Inl UrlRequired
           else
             bind (py_get ps ''description'') (\<lambda>description.
               if description = PNone then Inl DescriptionRequired
               else Inr (name, state))))
       else Inr (name, state)))"

text \<open>
  The renaming of \<^verbatim>\<open>name\<close> and \<^verbatim>\<open>description\<close>, the two \<^verbatim>\<open>del\<close> statements (a
  \<^verbatim>\<open>KeyError\<close> for a key that is not there) and the default of \<^verbatim>\<open>file\<close>.
\<close>

definition py_del :: "params \<Rightarrow> string \<Rightarrow> error + params" where
  "py_del ps k =
     (if k \<in> set (map fst ps) then Inr (AList.delete k ps) else Inl (Uncaught ''KeyError''))"

definition rename_params :: "params \<Rightarrow> error + params" where
  "rename_params ps =
     bind (py_get ps ''name'') (\<lambda>name.
       let ps1 = AList.update ''repoid'' name ps in
     bind (py_get ps1 ''description'') (\<lambda>description.
       let ps2 = AList.update ''name'' description ps1 in
     bind (py_del ps2 ''description'') (\<lambda>ps3.
     bind (py_del ps3 ''ignore_repo_files'') (\<lambda>ps4.
     bind (py_get ps4 ''file'') (\<lambda>file.
       if file = PNone then
         bind (py_get ps4 ''repoid'') (\<lambda>repoid. Inr (AList.update ''file'' repoid ps4))
       else Inr ps4)))))"

text \<open>
  The action of the branch for the states \<^verbatim>\<open>present\<close> and \<^verbatim>\<open>absent\<close>, between the two
  calls of \<^verbatim>\<open>dump\<close>; \<open>mm_file\<close> is the ledger path. For \<^verbatim>\<open>absent\<close> the ledger entry is
  removed when \<^verbatim>\<open>os.path.isfile(module.params['file'])\<close> is false.
\<close>

definition repo_action ::
  "bool \<Rightarrow> path \<Rightarrow> pval \<Rightarrow> params \<Rightarrow> pval \<Rightarrow> config \<Rightarrow> fs \<Rightarrow> error + (config \<times> fs)" where
  "repo_action check_mode mm_file state ps section cfg fs =
     (if state = PStr ''present'' then
        bind (yum_add ps section cfg) (\<lambda>cfg'.
        bind (py_get ps ''file'') (\<lambda>file.
        bind (mm_add check_mode mm_file file fs) (\<lambda>(c, fs1). Inr (cfg', fs1))))
      else if state = PStr ''absent'' then
        bind (yum_remove section cfg) (\<lambda>cfg'.
        bind (py_get ps ''file'') (\<lambda>file.
        bind (as_path file) (\<lambda>file_path.
          if \<not> os_path_isfile fs file_path then
            bind (py_get ps ''file'') (\<lambda>file.
            bind (mm_remove check_mode mm_file file fs) (\<lambda>(c, fs1). Inr (cfg', fs1)))
          else Inr (cfg', fs))))
      else Inr (cfg, fs))"

text \<open>
  The end of the branch: the comparison of the two dumps, the save outside check mode
  when they differ, and the file attributes when the destination is a file.
\<close>

definition repo_finish ::
  "bool \<Rightarrow> bool \<Rightarrow> path \<Rightarrow> string \<Rightarrow> config \<Rightarrow> fs \<Rightarrow> error + (bool \<times> fs)" where
  "repo_finish attrs_differ check_mode dest yumrepo_before cfg' fs1 =
     (let yumrepo_after = yum_dump cfg';
          changed = (yumrepo_before \<noteq> yumrepo_after)
      in bind (if \<not> check_mode \<and> changed then yum_save dest cfg' fs1 else Inr fs1) (\<lambda>fs2.
           Inr (if os_path_isfile fs2 dest then (changed \<or> attrs_differ) else changed, fs2)))"

text \<open>The branch for the states \<^verbatim>\<open>present\<close> and \<^verbatim>\<open>absent\<close>.\<close>

definition main_repo ::
  "(string \<Rightarrow> string + config) \<Rightarrow> bool \<Rightarrow> bool \<Rightarrow> path \<Rightarrow> pval \<Rightarrow> params \<Rightarrow> fs
     \<Rightarrow> error + (bool \<times> fs)" where
  "main_repo cp_read attrs_differ check_mode mm_file state ps fs =
     bind (rename_params ps) (\<lambda>ps5.
     bind (yum_init cp_read ps5 fs) (\<lambda>(ps6, section, dest, cfg).
       let yumrepo_before = yum_dump cfg in
     bind (repo_action check_mode mm_file state ps6 section cfg fs) (\<lambda>(cfg', fs1).
       repo_finish attrs_differ check_mode dest yumrepo_before cfg' fs1)))"

text \<open>The branch for the states of the Managed Mode.\<close>

definition main_mm :: "bool \<Rightarrow> path \<Rightarrow> pval \<Rightarrow> params \<Rightarrow> fs \<Rightarrow> error + (bool \<times> fs)" where
  "main_mm check_mode mm_file state ps fs =
     (if state = PStr ''mm_enabled'' then mm_enable check_mode mm_file fs
      else if state = PStr ''mm_disabled'' then mm_disable check_mode mm_file fs
      else if state = PStr ''managed'' then mm_process check_mode mm_file ps fs
      else Inl NoResult)"

definition main ::
  "(string \<Rightarrow> string + config) \<Rightarrow> bool \<Rightarrow> bool \<Rightarrow> params \<Rightarrow> fs \<Rightarrow> error + (bool \<times> fs)" where
  "main cp_read attrs_differ check_mode ps fs =
     bind (main_checks ps) (\<lambda>(name, state).
     bind (py_get ps ''reposdir'') (\<lambda>reposdir.
       let mm_file = py_str reposdir @ ''/.managed'' in
       if state = PStr ''present'' \<or> state = PStr ''absent''
       then main_repo cp_read attrs_differ check_mode mm_file state ps fs
       else main_mm check_mode mm_file state ps fs))"

section \<open>The operations as one function\<close>

text \<open>
  The operations of the two components that consult \<^verbatim>\<open>check_mode\<close>: the methods of
  \<^verbatim>\<open>ManagedMode\<close> with the ledger path, and a request to \<open>main\<close>, which gates
  \<^verbatim>\<open>YumRepo.save\<close>.
\<close>

datatype operation =
    MmEnable path
  | MmDisable path
  | MmAdd path pval
  | MmRemove path pval
  | MmProcess path params
  | Main params

fun run ::
  "(string \<Rightarrow> string + config) \<Rightarrow> bool \<Rightarrow> bool \<Rightarrow> operation \<Rightarrow> fs \<Rightarrow> error + (bool \<times> fs)" where
  "run cp_read attrs_differ check_mode (MmEnable file) fs = mm_enable check_mode file fs"
| "run cp_read attrs_differ check_mode (MmDisable file) fs = mm_disable check_mode file fs"
| "run cp_read attrs_differ check_mode (MmAdd file repo_file) fs = mm_add check_mode file repo_file fs"
| "run cp_read attrs_differ check_mode (MmRemove file repo_file) fs =
     mm_remove check_mode file repo_file fs"
| "run cp_read attrs_differ check_mode (MmProcess file ps) fs = mm_process check_mode file ps fs"
| "run cp_read attrs_differ check_mode (Main ps) fs = main cp_read attrs_differ check_mode ps fs"


subsection \<open>Notions used to state the ledger properties\<close>

text \<open>The text of a ledger that holds the given lines, each ended by a line feed.\<close>

definition ledger_text :: "string list \<Rightarrow> string" where
  "ledger_text lines = concat (map (\<lambda>l. l @ [newline]) lines)"

text \<open>A line without line terminators.\<close>

definition clean :: "string \<Rightarrow> bool" where
  "clean l = (newline \<notin> set l \<and> carriage_return \<notin> set l)"

text \<open>The lines \<open>acc\<close> followed by those of \<open>ls\<close> that are new, in order of first occurrence.\<close>

fun keep_first :: "string list \<Rightarrow> string list \<Rightarrow> string list" where
  "keep_first acc [] = acc"
| "keep_first acc (l # ls) = keep_first (if l \<in> set acc then acc else acc @ [l]) ls"

text \<open>
  A ledger as \<^verbatim>\<open>ManagedMode.add\<close> builds it: distinct lines, each ended by one line feed.
\<close>

definition canonical_ledger :: "string \<Rightarrow> bool" where
  "canonical_ledger content =
     (distinct (splitlines content) \<and> content = ledger_text (splitlines content))"

text \<open>A repository directory that holds only a ledger with the given content.\<close>

definition ledger_fs :: "string \<Rightarrow> fs" where
  "ledger_fs content = [(''/etc/yum.repos.d'', Dir), (''/etc/yum.repos.d/.managed'', File content)]"

subsection \<open>Notions used to state the properties of the repo file\<close>

text \<open>
  A document that \<^verbatim>\<open>write\<close> and \<^verbatim>\<open>dump\<close> render alike: no defaults, the section names and
  the option names of every section in strictly ascending order, no line feed in a value.
\<close>

definition in_dump_order :: "config \<Rightarrow> bool" where
  "in_dump_order cfg =
     (defaults cfg = [] \<and> sorted_wrt (<) (cp_sections cfg)
      \<and> list_all (\<lambda>sec. sorted_wrt (<) (map fst (snd sec))
                          \<and> list_all (\<lambda>kv. newline \<notin> set (snd kv)) (snd sec))
                  (sections cfg))"

text \<open>Two sections, stored in the order \<^verbatim>\<open>updates\<close>, \<^verbatim>\<open>base\<close>.\<close>

definition two_repos :: config where
  "two_repos =
     \<lparr>defaults = [],
      sections = [(''updates'', [(''baseurl'', ''http://u/'')]),
                  (''base'', [(''baseurl'', ''http://b/'')])]\<rparr>"

text \<open>One section.\<close>

definition one_repo :: config where
  "one_repo = \<lparr>defaults = [], sections = [(''epel'', [(''baseurl'', ''http://e/''), (''name'', ''EPEL'')])]\<rparr>"

text \<open>A file system that holds only the repository directory.\<close>

definition repos_dir_fs :: fs where
  "repos_dir_fs = [(''/etc/yum.repos.d'', Dir)]"

subsection \<open>Notions used to state the properties of \<^verbatim>\<open>YumRepo.add\<close>\<close>

text \<open>The options that \<^verbatim>\<open>set\<close> stores into a dictionary, the option names lower-cased.\<close>

definition set_opts :: "(string \<times> string) list \<Rightarrow> (string \<times> string) list \<Rightarrow> (string \<times> string) list" where
  "set_opts kvs d = fold (\<lambda>(k, v). AList.update (py_lower k) v) kvs d"

text \<open>
  The document after \<^verbatim>\<open>add\<close> for the section name \<open>s\<close>: the section is the last one
  and holds the options of the request; for the empty name they go to the defaults.
\<close>

definition added :: "params \<Rightarrow> string \<Rightarrow> config \<Rightarrow> config" where
  "added ps s cfg =
     (if s = [] then
        cfg\<lparr>defaults := set_opts (options_to_set ps) (defaults cfg),
            sections := AList.delete s (sections cfg) @ [(s, [])]\<rparr>
      else
        cfg\<lparr>sections := AList.delete s (sections cfg) @ [(s, set_opts (options_to_set ps) [])]\<rparr>)"

text \<open>A request that gives \<^verbatim>\<open>baseurl\<close> or \<^verbatim>\<open>mirrorlist\<close>, and one that gives neither.\<close>

definition url_given :: "params \<Rightarrow> bool" where
  "url_given ps =
     (case (map_of ps ''baseurl'', map_of ps ''mirrorlist'') of
        (Some b, Some m) \<Rightarrow> b \<noteq> PNone \<or> m \<noteq> PNone
      | _ \<Rightarrow> False)"

definition url_absent :: "params \<Rightarrow> bool" where
  "url_absent ps = (map_of ps ''baseurl'' = Some PNone \<and> map_of ps ''mirrorlist'' = Some PNone)"

text \<open>
  The parameters of a request for the repository \<^verbatim>\<open>epel\<close>, as \<^verbatim>\<open>YumRepo\<close> gets them, and a
  document whose section \<^verbatim>\<open>epel\<close> holds the options \<^verbatim>\<open>baseurl\<close> and \<^verbatim>\<open>gpgkey\<close>.
\<close>

definition epel_params :: params where
  "epel_params =
     [(''repoid'', PStr ''epel''), (''name'', PStr ''EPEL''), (''baseurl'', PStr ''http://e/''),
      (''mirrorlist'', PNone), (''gpgkey'', PNone), (''enabled'', PBool True),
      (''file'', PStr ''epel''), (''reposdir'', PStr ''/etc/yum.repos.d''),
      (''state'', PStr ''present'')]"

definition old_epel :: config where
  "old_epel =
     \<lparr>defaults = [],
      sections = [(''epel'', [(''baseurl'', ''http://old/''), (''gpgkey'', ''http://old/key'')]),
                  (''extras'', [(''baseurl'', ''http://x/'')])]\<rparr>"

definition new_epel :: config where
  "new_epel =
     \<lparr>defaults = [],
      sections = [(''extras'', [(''baseurl'', ''http://x/'')]),
                  (''epel'', [(''baseurl'', ''http://e/''), (''enabled'', ''1''), (''name'', ''EPEL'')])]\<rparr>"

text \<open>The option that one item of the parameters contributes to \<open>options_to_set\<close>.\<close>

definition option_of :: "string \<times> pval \<Rightarrow> (string \<times> string) list" where
  "option_of = (\<lambda>(key, v). case coerce key v of
                                None \<Rightarrow> []
                              | Some s \<Rightarrow> if key \<in> set allowed_params then [(key, s)] else [])"

subsection \<open>Notions used to state the property of the sweep\<close>

text \<open>
  A repository directory with the ledger entry \<^verbatim>\<open>a\<close> and the repo files \<^verbatim>\<open>a.repo\<close>,
  \<^verbatim>\<open>b.repo\<close> and \<^verbatim>\<open>c.repo\<close>, and the parameters of a sweep that exempts \<^verbatim>\<open>b\<close>.
\<close>

definition sweep_fs :: fs where
  "sweep_fs =
     [(''/etc/yum.repos.d'', Dir),
      (''/etc/yum.repos.d/.managed'', File ''a\<newline>''),
      (''/etc/yum.repos.d/a.repo'', File ''[a]''),
      (''/etc/yum.repos.d/b.repo'', File ''[b]''),
      (''/etc/yum.repos.d/c.repo'', File ''[c]'')]"

definition sweep_params :: params where
  "sweep_params =
     [(''state'', PStr ''managed''), (''name'', PNone), (''reposdir'', PStr ''/etc/yum.repos.d''),
      (''ignore_repo_files'', PList [''b''])]"

text \<open>The same directory without \<^verbatim>\<open>c.repo\<close>.\<close>

definition swept_fs :: fs where
  "swept_fs =
     [(''/etc/yum.repos.d'', Dir),
      (''/etc/yum.repos.d/.managed'', File ''a\<newline>''),
      (''/etc/yum.repos.d/a.repo'', File ''[a]''),
      (''/etc/yum.repos.d/b.repo'', File ''[b]'')]"

subsection \<open>Notions used to state the properties of \<open>main\<close>\<close>

text \<open>
  The parameters of a request that removes the repository \<^verbatim>\<open>epel\<close>; a parser that reads
  every repo file as the document \<open>one_repo\<close>; a file system in which the repo file
  \<^verbatim>\<open>epel.repo\<close> exists, the ledger holds \<^verbatim>\<open>epel\<close>, and the working directory holds a
  file named \<^verbatim>\<open>epel\<close>; and the same file system without the repo file.
\<close>

definition absent_params :: params where
  "absent_params =
     [(''name'', PStr ''epel''), (''state'', PStr ''absent''), (''description'', PNone),
      (''baseurl'', PNone), (''mirrorlist'', PNone), (''file'', PNone),
      (''reposdir'', PStr ''/etc/yum.repos.d''), (''ignore_repo_files'', PNone)]"

definition read_one_repo :: "string \<Rightarrow> string + config" where
  "read_one_repo content = Inr one_repo"

definition absent_fs :: fs where
  "absent_fs =
     [(''/etc/yum.repos.d'', Dir),
      (''/etc/yum.repos.d/.managed'', File ''epel\<newline>''),
      (''/etc/yum.repos.d/epel.repo'', File ''[epel]\<newline>baseurl = http://e/\<newline>name = EPEL\<newline>\<newline>''),
      (''epel'', File ''unrelated'')]"

definition absent_fs_after :: fs where
  "absent_fs_after =
     [(''/etc/yum.repos.d'', Dir),
      (''/etc/yum.repos.d/.managed'', File ''epel\<newline>''),
      (''epel'', File ''unrelated'')]"

text \<open>
  The file identifier of a request: \<^verbatim>\<open>params['file']\<close>, or \<^verbatim>\<open>params['name']\<close> when that is
  \<^verbatim>\<open>None\<close>.
\<close>

definition target_file :: "params \<Rightarrow> pval option" where
  "target_file ps = (case map_of ps ''file'' of Some PNone \<Rightarrow> map_of ps ''name'' | r \<Rightarrow> r)"

text \<open>The two failures for a request without \<^verbatim>\<open>baseurl\<close> and \<^verbatim>\<open>mirrorlist\<close>.\<close>

definition url_error :: "error \<Rightarrow> bool" where
  "url_error e = (e = UrlRequired \<or> e = UrlRequiredForAdd)"

text \<open>The parameters of a request to create \<^verbatim>\<open>epel\<close> without any URL, and with one.\<close>

definition no_url_params :: params where
  "no_url_params =
     [(''name'', PStr ''epel''), (''state'', PStr ''present''), (''description'', PStr ''EPEL''),
      (''baseurl'', PNone), (''mirrorlist'', PNone), (''file'', PNone),
      (''reposdir'', PStr ''/etc/yum.repos.d''), (''ignore_repo_files'', PNone)]"

definition present_params :: params where
  "present_params =
     [(''name'', PStr ''epel''), (''state'', PStr ''present''), (''description'', PStr ''EPEL''),
      (''baseurl'', PStr ''http://e/''), (''mirrorlist'', PNone), (''file'', PNone),
      (''reposdir'', PStr ''/etc/yum.repos.d''), (''ignore_repo_files'', PNone)]"

section \<open>Properties of the ledger\<close>

lemma cr_neq_nl: "carriage_return \<noteq> newline"
  by (simp add: carriage_return_def newline_def)

lemma split_acc_nl: "split_acc cur (newline # cs) = cur # split_acc [] cs"
  by simp

lemma split_acc_cr_end: "split_acc cur [carriage_return] = [cur]"
  by (simp add: cr_neq_nl)

lemma split_acc_cr_nl: "split_acc cur (carriage_return # newline # ds) = cur # split_acc [] ds"
  by (simp add: cr_neq_nl)

lemma split_acc_cr: "d \<noteq> newline \<Longrightarrow>
    split_acc cur (carriage_return # d # ds) = cur # split_acc [] (d # ds)"
  by (simp add: cr_neq_nl)

lemma split_acc_other: "c \<noteq> newline \<Longrightarrow> c \<noteq> carriage_return \<Longrightarrow>
    split_acc cur (c # cs) = split_acc (cur @ [c]) cs"
  by simp

lemmas split_acc_eqs = split_acc_nl split_acc_cr_end split_acc_cr_nl split_acc_cr split_acc_other

declare split_acc.simps(2) [simp del]

lemma clean_Nil: "clean []"
  by (simp add: clean_def)

lemma clean_snoc: "clean cur \<Longrightarrow> c \<noteq> newline \<Longrightarrow> c \<noteq> carriage_return \<Longrightarrow> clean (cur @ [c])"
  by (simp add: clean_def)

lemma split_acc_clean:
  "l \<in> set (split_acc cur s) \<Longrightarrow> clean cur \<Longrightarrow> clean l"
proof (induction cur s rule: split_acc.induct)
  case (1 cur)
  then show ?case by (simp split: if_splits)
next
  case (2 cur c cs)
  note mem = \<open>l \<in> set (split_acc cur (c # cs))\<close>
  show ?case
  proof (cases "c = newline")
    case True
    then have "l = cur \<or> l \<in> set (split_acc [] cs)" using mem by (simp add: split_acc_nl)
    then show ?thesis using 2(1) [OF True] \<open>clean cur\<close> clean_Nil by blast
  next
    case nl: False
    show ?thesis
    proof (cases "c = carriage_return")
      case cr: True
      show ?thesis
      proof (cases cs)
        case Nil
        then have "l = cur" using mem cr by (simp add: split_acc_cr_end)
        then show ?thesis using \<open>clean cur\<close> by simp
      next
        case (Cons d ds)
        show ?thesis
        proof (cases "d = newline")
          case True
          then have "l = cur \<or> l \<in> set (split_acc [] ds)"
            using mem cr Cons by (simp add: split_acc_cr_nl)
          then show ?thesis using 2(3) [OF nl cr Cons True] \<open>clean cur\<close> clean_Nil by blast
        next
          case False
          then have "l = cur \<or> l \<in> set (split_acc [] cs)"
            using mem cr Cons by (simp add: split_acc_cr)
          then show ?thesis using 2(4) [OF nl cr Cons False] \<open>clean cur\<close> clean_Nil by blast
        qed
      qed
    next
      case False
      then have "l \<in> set (split_acc (cur @ [c]) cs)" using mem nl by (simp add: split_acc_other)
      then show ?thesis using 2(5) [OF nl False] clean_snoc [OF \<open>clean cur\<close> nl False] by blast
    qed
  qed
qed

lemma splitlines_clean: "l \<in> set (splitlines s) \<Longrightarrow> clean l"
  unfolding splitlines_def by (erule split_acc_clean) (rule clean_Nil)

lemma split_acc_line:
  "clean l \<Longrightarrow> split_acc cur (l @ newline # rest) = (cur @ l) # split_acc [] rest"
proof (induction l arbitrary: cur)
  case Nil
  then show ?case by (simp add: split_acc_nl)
next
  case (Cons c l)
  then have "c \<noteq> newline" "c \<noteq> carriage_return" "clean l" by (auto simp: clean_def)
  then show ?case using Cons.IH [of "cur @ [c]"] by (simp add: split_acc_other)
qed

lemma splitlines_ledger_text:
  "\<forall>l \<in> set ls. clean l \<Longrightarrow> splitlines (ledger_text ls) = ls"
proof (induction ls)
  case Nil
  then show ?case by (simp add: splitlines_def ledger_text_def)
next
  case (Cons l ls)
  then have "split_acc [] (l @ newline # ledger_text ls) = l # split_acc [] (ledger_text ls)"
    using split_acc_line [of l "[]"] by simp
  then show ?case using Cons by (simp add: splitlines_def ledger_text_def)
qed

lemma ledger_text_snoc: "ledger_text (acc @ [l]) = ledger_text acc @ l @ [newline]"
  by (simp add: ledger_text_def)

lemma mm_add_fresh:
  assumes "map_of fs file = Some (File content)" and "l \<notin> set (splitlines content)"
  shows "mm_add False file (PStr l) fs =
           Inr (True, AList.update file (File (content @ l @ [newline])) fs)"
  using assms by (simp add: mm_add_def os_path_isfile_def read_file_def image_iff)


lemma mm_add_present:
  assumes "map_of fs file = Some (File content)" and "l \<in> set (splitlines content)"
  shows "mm_add check_mode file (PStr l) fs = Inr (False, fs)"
  using assms by (simp add: mm_add_def os_path_isfile_def read_file_def image_iff)

lemma keep_first_distinct: "distinct (acc @ ls) \<Longrightarrow> keep_first acc ls = acc @ ls"
  by (induction ls arbitrary: acc) auto

lemma mm_add_all_rebuild:
  "map_of fs file = Some (File (ledger_text acc)) \<Longrightarrow> \<forall>l \<in> set (acc @ ls). clean l \<Longrightarrow>
   mm_add_all False file ls fs = Inr (AList.update file (File (ledger_text (keep_first acc ls))) fs)"
proof (induction ls arbitrary: acc fs)
  case Nil
  then show ?case by (simp add: AList.update_triv)
next
  case (Cons l ls)
  have sp: "splitlines (ledger_text acc) = acc"
    using Cons.prems(2) by (intro splitlines_ledger_text) simp
  show ?case
  proof (cases "l \<in> set acc")
    case True
    then have step: "mm_add False file (PStr l) fs = Inr (False, fs)"
      using mm_add_present [OF Cons.prems(1)] sp by simp
    have "mm_add_all False file ls fs =
            Inr (AList.update file (File (ledger_text (keep_first acc ls))) fs)"
      using Cons.prems by (intro Cons.IH) simp_all
    then show ?thesis using True by (simp only: mm_add_all.simps step sum.case prod.case keep_first.simps if_True)
  next
    case False
    then have notin: "l \<notin> set (splitlines (ledger_text acc))" using sp by simp
    let ?fs1 = "AList.update file (File (ledger_text (acc @ [l]))) fs"
    have step: "mm_add False file (PStr l) fs = Inr (True, ?fs1)"
      using mm_add_fresh [OF Cons.prems(1) notin] by (simp only: ledger_text_snoc)
    have "mm_add_all False file ls ?fs1 =
            Inr (AList.update file (File (ledger_text (keep_first (acc @ [l]) ls))) ?fs1)"
    proof (rule Cons.IH)
      show "map_of ?fs1 file = Some (File (ledger_text (acc @ [l])))"
        by (simp add: AList.update_conv')
      show "\<forall>l \<in> set ((acc @ [l]) @ ls). clean l" using Cons.prems(2) by simp
    qed
    then have "mm_add_all False file (l # ls) fs =
            Inr (AList.update file (File (ledger_text (keep_first (acc @ [l]) ls))) ?fs1)"
      by (simp only: mm_add_all.simps step sum.case prod.case)
    then show ?thesis using False by (simp only: AList.update_last keep_first.simps if_False)
  qed
qed

lemma mm_enable_existing:
  assumes "map_of fs file = Some (File content)"
  shows "mm_enable check_mode file fs =
           Inr (False, if content \<noteq> [] \<and> \<not> check_mode then AList.update file (File []) fs else fs)"
  using assms
  by (simp add: mm_enable_def os_path_isfile_def os_path_getsize_def write_file_def)

lemma pop_first_absent:
  "repo_file \<notin> set (map PStr ls) \<Longrightarrow> pop_first repo_file ls = (False, ls)"
  by (induction ls) auto

lemma mm_remove_absent:
  assumes isf: "map_of fs file = Some (File content)"
    and absent: "repo_file \<notin> set (map PStr (splitlines content))"
  shows "mm_remove check_mode file repo_file fs =
           Inr (False, if check_mode then fs
                       else AList.update file
                              (File (ledger_text (keep_first [] (splitlines content)))) fs)"
proof (cases check_mode)
  case True
  then show ?thesis using isf pop_first_absent [OF absent]
    by (simp add: mm_remove_def os_path_isfile_def read_file_def)
next
  case False
  let ?ls = "splitlines content"
  let ?fs1 = "AList.update file (File []) fs"
  have en: "mm_enable False file fs = Inr (False, ?fs1)"
    using mm_enable_existing [OF isf, of False] isf by (simp add: AList.update_triv)
  have "map_of ?fs1 file = Some (File (ledger_text []))"
    by (simp add: AList.update_conv' ledger_text_def)
  moreover have "\<forall>l \<in> set ([] @ ?ls). clean l" by (simp add: splitlines_clean)
  ultimately have "mm_add_all False file ?ls ?fs1 =
      Inr (AList.update file (File (ledger_text (keep_first [] ?ls))) ?fs1)"
    by (rule mm_add_all_rebuild)
  then have all: "mm_add_all False file ?ls ?fs1 =
      Inr (AList.update file (File (ledger_text (keep_first [] ?ls))) fs)"
    by (simp only: AList.update_last)
  show ?thesis using False isf pop_first_absent [OF absent] en all
    by (simp add: mm_remove_def os_path_isfile_def read_file_def)
qed

text \<open>
  Claim C8, as the code has it. When the ledger file exists and none of its lines is the
  identifier, \<^verbatim>\<open>ManagedMode.remove\<close> reports \<^verbatim>\<open>changed = False\<close>. In check mode the
  file system is left as it is. Otherwise the ledger is still rebuilt ("Build the file
  from scratch" is outside the test of \<^verbatim>\<open>found\<close>): it then holds its lines in order of
  first occurrence, duplicates dropped, each ended by a line feed. A ledger of distinct
  lines that each end with one line feed therefore keeps its content.
\<close>

theorem remove_absent_entry:
  assumes "map_of fs file = Some (File content)"
    and "repo_file \<notin> set (map PStr (splitlines content))"
  shows "mm_remove check_mode file repo_file fs =
           Inr (False, if check_mode then fs
                       else AList.update file
                              (File (ledger_text (keep_first [] (splitlines content)))) fs)
         \<and> (canonical_ledger content \<longrightarrow> mm_remove check_mode file repo_file fs = Inr (False, fs))"
proof -
  have "ledger_text (keep_first [] (splitlines content)) = content" if "canonical_ledger content"
    using that keep_first_distinct [of "[]" "splitlines content"] by (simp add: canonical_ledger_def)
  then show ?thesis
    using mm_remove_absent [OF assms, of check_mode] assms(1) by (simp add: AList.update_triv)
qed

text \<open>
  Claim C8 as stated fails: a ledger that holds the line \<^verbatim>\<open>a\<close> without a final line feed
  does not contain \<^verbatim>\<open>b\<close>, and removing \<^verbatim>\<open>b\<close> rewrites it with a line feed added.
\<close>

theorem remove_absent_entry_counterexample:
  "PStr ''b'' \<notin> set (map PStr (splitlines ''a''))
   \<and> mm_remove False ''/etc/yum.repos.d/.managed'' (PStr ''b'') (ledger_fs ''a'')
       = Inr (False, ledger_fs ''a\<newline>'')
   \<and> read_file (ledger_fs ''a\<newline>'') ''/etc/yum.repos.d/.managed''
       \<noteq> read_file (ledger_fs ''a'') ''/etc/yum.repos.d/.managed''"
  by code_simp

text \<open>The hypotheses of \<open>remove_absent_entry\<close> hold for the ledger \<^verbatim>\<open>a\<close> with its line feed.\<close>

theorem remove_absent_entry_witness:
  "map_of (ledger_fs ''a\<newline>'') ''/etc/yum.repos.d/.managed'' = Some (File ''a\<newline>'')
   \<and> PStr ''b'' \<notin> set (map PStr (splitlines ''a\<newline>''))
   \<and> canonical_ledger ''a\<newline>''
   \<and> mm_remove False ''/etc/yum.repos.d/.managed'' (PStr ''b'') (ledger_fs ''a\<newline>'')
       = Inr (False, ledger_fs ''a\<newline>'')"
proof -
  have 1: "map_of (ledger_fs ''a\<newline>'') ''/etc/yum.repos.d/.managed'' = Some (File ''a\<newline>'')"
    by (simp add: ledger_fs_def)
  have sp: "splitlines ''a\<newline>'' = [''a'']"
    by code_simp
  have 2: "PStr ''b'' \<notin> set (map PStr (splitlines ''a\<newline>''))"
    by (simp add: sp)
  have 3: "canonical_ledger ''a\<newline>''"
    by (simp add: canonical_ledger_def sp ledger_text_def newline_def)
  show ?thesis
    using remove_absent_entry [OF 1 2, of False] 1 2 3 by blast
qed

text \<open>
  Claim C1, as the code has it. When the ledger file exists, \<^verbatim>\<open>ManagedMode.enable\<close>
  reports \<^verbatim>\<open>changed = False\<close> ("Register the change if the file was just created"): a
  non-empty ledger is truncated to the empty file unless check mode is on, and an empty
  ledger is left as it is.
\<close>

theorem enable_existing_file:
  assumes "map_of fs file = Some (File content)"
  shows "mm_enable check_mode file fs =
           Inr (False, if content \<noteq> [] \<and> \<not> check_mode then AList.update file (File []) fs else fs)"
  using assms by (rule mm_enable_existing)

text \<open>
  Claim C1 as stated fails: enabling over a ledger that holds \<^verbatim>\<open>epel\<close> empties the file
  and reports \<^verbatim>\<open>changed = False\<close>, not \<^verbatim>\<open>True\<close>.
\<close>

theorem enable_existing_file_counterexample:
  "mm_enable False ''/etc/yum.repos.d/.managed'' (ledger_fs ''epel\<newline>'') = Inr (False, ledger_fs [])"
  by (simp add: mm_enable_def os_path_isfile_def os_path_getsize_def write_file_def ledger_fs_def)

text \<open>The hypothesis of \<open>enable_existing_file\<close> holds for that ledger.\<close>

theorem enable_existing_file_witness:
  "map_of (ledger_fs ''epel\<newline>'') ''/etc/yum.repos.d/.managed'' = Some (File ''epel\<newline>'')
   \<and> mm_enable False ''/etc/yum.repos.d/.managed'' (ledger_fs ''epel\<newline>'')
       = Inr (False, AList.update ''/etc/yum.repos.d/.managed'' (File []) (ledger_fs ''epel\<newline>''))"
proof -
  have 1: "map_of (ledger_fs ''epel\<newline>'') ''/etc/yum.repos.d/.managed'' = Some (File ''epel\<newline>'')"
    by (simp add: ledger_fs_def)
  show ?thesis using enable_existing_file [OF 1, of False] 1 by simp
qed


section \<open>Properties of saving the repo file\<close>

lemma save_empty:
  assumes "sections cfg = []"
  shows "yum_save dest cfg fs =
           (case map_of fs dest of
              Some (File c) \<Rightarrow> Inr (AList.delete dest fs)
            | _ \<Rightarrow> Inl (CannotRemoveEmptyRepoFile dest))"
  using assms
  by (simp add: yum_save_def cp_sections_def os_remove_def split: option.splits node.splits)

lemma save_nonempty:
  assumes "sections cfg \<noteq> []" and "map_of fs dest \<noteq> Some Dir"
  shows "yum_save dest cfg fs = Inr (AList.update dest (File (cp_write cfg)) fs)"
  using assms by (simp add: yum_save_def cp_sections_def write_file_def)

lemma replace_newlines_id: "newline \<notin> set v \<Longrightarrow> replace_newlines v = v"
  unfolding replace_newlines_def by (induction v) auto

lemma update_fresh: "k \<notin> fst ` set al \<Longrightarrow> AList.update k v al = al @ [(k, v)]"
  by (induction al) auto

lemma dict_update_fresh:
  "distinct (map fst d2) \<Longrightarrow> fst ` set d \<inter> fst ` set d2 = {} \<Longrightarrow> dict_update d d2 = d @ d2"
proof (induction d2 arbitrary: d)
  case Nil
  then show ?case by (simp add: dict_update_def)
next
  case (Cons kv d2)
  obtain k v where kv: "kv = (k, v)" by (cases kv)
  have fresh: "k \<notin> fst ` set d" using Cons.prems(2) kv by auto
  have "dict_update (d @ [(k, v)]) d2 = (d @ [(k, v)]) @ d2"
  proof (rule Cons.IH)
    show "distinct (map fst d2)" using Cons.prems(1) by simp
    show "fst ` set (d @ [(k, v)]) \<inter> fst ` set d2 = {}"
      using Cons.prems kv by auto
  qed
  then show ?case using fresh kv by (simp add: dict_update_def update_fresh)
qed

lemma strict_keys_sorted:
  fixes xs :: "(string \<times> string) list"
  shows "sorted_wrt (<) (map fst xs) \<Longrightarrow> sorted xs"
proof (induction xs)
  case Nil
  then show ?case by simp
next
  case (Cons x xs)
  then have "\<forall>y \<in> set xs. fst x < fst y" by auto
  then have "\<forall>y \<in> set xs. x \<le> y" by (auto simp: less_eq_prod_def prod.case_eq_if)
  then show ?case using Cons by simp
qed


lemma write_option_dump: "newline \<notin> set (snd kv) \<Longrightarrow> write_option kv = dump_option kv"
  by (simp add: write_option_def dump_option_def replace_newlines_id)

lemma section_items_plain:
  assumes "defaults cfg = []" and "map_of (sections cfg) s = Some opts"
    and "sorted_wrt (<) (map fst opts)"
  shows "cp_items cfg s = Inr (filter (\<lambda>(k, v). k \<noteq> ''__name__'') opts)"
proof -
  have "distinct (map fst opts)" using assms(3) strict_sorted_iff by blast
  then have "dict_update [] opts = opts" using dict_update_fresh [of opts "[]"] by simp
  then show ?thesis using assms(1,2) by (simp add: cp_items_def)
qed

lemma write_section_dump:
  assumes "defaults cfg = []" and "map_of (sections cfg) (fst sec) = Some (snd sec)"
    and "sorted_wrt (<) (map fst (snd sec))"
    and "list_all (\<lambda>kv. newline \<notin> set (snd kv)) (snd sec)"
  shows "write_section sec = dump_section cfg (fst sec)"
proof -
  let ?kept = "filter (\<lambda>(k, v). k \<noteq> ''__name__'') (snd sec)"
  have items: "cp_items cfg (fst sec) = Inr ?kept"
    using assms(1,2,3) by (rule section_items_plain)
  have "sorted_wrt (<) (map fst ?kept)"
    using assms(3) by (simp add: sorted_wrt_map sorted_wrt_filter)
  then have srt: "sort ?kept = ?kept" by (intro sorted_sort_id strict_keys_sorted)
  have "write_option kv = dump_option kv" if "kv \<in> set ?kept" for kv
    using assms(4) that by (intro write_option_dump) (auto simp: list_all_iff)
  then have eq: "map write_option ?kept = map dump_option ?kept"
    by (rule map_cong [OF refl])
  show ?thesis by (simp only: write_section_def dump_section_def items sum.case srt eq)
qed

lemma write_is_dump:
  assumes "in_dump_order cfg"
  shows "cp_write cfg = yum_dump cfg"
proof -
  have nodef: "defaults cfg = []" and names: "sorted_wrt (<) (map fst (sections cfg))"
    and secs: "\<forall>sec \<in> set (sections cfg). sorted_wrt (<) (map fst (snd sec))
                 \<and> list_all (\<lambda>kv. newline \<notin> set (snd kv)) (snd sec)"
    using assms by (auto simp: in_dump_order_def cp_sections_def list_all_iff)
  have dist: "distinct (map fst (sections cfg))" using names strict_sorted_iff by blast
  have srt: "sort (map fst (sections cfg)) = map fst (sections cfg)"
    using names strict_sorted_iff sorted_sort_id by blast
  have eq: "map (dump_section cfg) (map fst (sections cfg)) = map write_section (sections cfg)"
  proof -
    have "write_section sec = dump_section cfg (fst sec)" if "sec \<in> set (sections cfg)" for sec
    proof (rule write_section_dump [OF nodef])
      show "map_of (sections cfg) (fst sec) = Some (snd sec)"
        using dist that by (intro map_of_is_SomeI) simp_all
      show "sorted_wrt (<) (map fst (snd sec))" using secs that by blast
      show "list_all (\<lambda>kv. newline \<notin> set (snd kv)) (snd sec)" using secs that by blast
    qed
    then have "map (\<lambda>sec. dump_section cfg (fst sec)) (sections cfg) = map write_section (sections cfg)"
      by (intro map_cong [OF refl]) simp
    then show ?thesis by (simp only: map_map comp_def)
  qed
  have "cp_write cfg = concat (map write_section (sections cfg))"
    using nodef by (simp add: cp_write_def)
  also have "\<dots> = yum_dump cfg"
    by (simp only: yum_dump_def cp_sections_def srt eq)
  finally show ?thesis .
qed

text \<open>
  Claim C2, as the code has it. For a document without sections, \<^verbatim>\<open>YumRepo.save\<close> calls
  \<^verbatim>\<open>os.remove\<close> on the destination: a regular file there is deleted; when there is no
  file (or a directory) \<^verbatim>\<open>os.remove\<close> raises \<^verbatim>\<open>OSError\<close>, which \<^verbatim>\<open>save\<close> turns into
  the failure "Cannot remove empty repo file", and nothing is changed.
\<close>

theorem save_empty_document:
  assumes "sections cfg = []"
  shows "yum_save dest cfg fs =
           (case map_of fs dest of
              Some (File c) \<Rightarrow> Inr (AList.delete dest fs)
            | _ \<Rightarrow> Inl (CannotRemoveEmptyRepoFile dest))"
  using assms by (rule save_empty)

text \<open>
  Claim C2 as stated fails: saving the empty document where no file exists is an error,
  not a no-op.
\<close>

theorem save_empty_document_counterexample:
  "sections empty_config = [] \<and> map_of repos_dir_fs ''/etc/yum.repos.d/epel.repo'' = None
   \<and> yum_save ''/etc/yum.repos.d/epel.repo'' empty_config repos_dir_fs
       = Inl (CannotRemoveEmptyRepoFile ''/etc/yum.repos.d/epel.repo'')"
  by (simp add: yum_save_def empty_config_def cp_sections_def os_remove_def repos_dir_fs_def)

text \<open>
  The hypothesis of \<open>save_empty_document\<close> holds for the empty document; an existing repo
  file is deleted.
\<close>

theorem save_empty_document_witness:
  "sections empty_config = []
   \<and> yum_save ''/etc/yum.repos.d/epel.repo'' empty_config
        ((''/etc/yum.repos.d/epel.repo'', File ''[epel]'') # repos_dir_fs)
       = Inr repos_dir_fs"
proof -
  have 1: "sections empty_config = []" by (simp add: empty_config_def)
  show ?thesis
    using save_empty_document [OF 1, of "''/etc/yum.repos.d/epel.repo''"
        "(''/etc/yum.repos.d/epel.repo'', File ''[epel]'') # repos_dir_fs"] 1
    by (simp add: repos_dir_fs_def)
qed

text \<open>
  Claim C3, as the code has it. For a document with at least one section and a
  destination that is not a directory, \<^verbatim>\<open>YumRepo.save\<close> writes what the library's
  \<^verbatim>\<open>write\<close> renders: the sections in the order in which the document holds them, the
  options of each in their stored order. This is the text of \<^verbatim>\<open>dump\<close> when the document
  has no defaults, holds its section names and the option names of each section in
  ascending order, and has no line feed in a value.
\<close>

theorem save_writes_document:
  assumes "sections cfg \<noteq> []" and "map_of fs dest \<noteq> Some Dir"
  shows "yum_save dest cfg fs = Inr (AList.update dest (File (cp_write cfg)) fs)
         \<and> (in_dump_order cfg \<longrightarrow> cp_write cfg = yum_dump cfg)"
  using save_nonempty [OF assms] write_is_dump by blast

text \<open>
  Claim C3 as stated fails: a document that holds the section \<^verbatim>\<open>updates\<close> before the
  section \<^verbatim>\<open>base\<close> is written in that order, while \<^verbatim>\<open>dump\<close> puts \<^verbatim>\<open>base\<close> first.
\<close>

theorem save_writes_document_counterexample:
  "sections two_repos \<noteq> []
   \<and> yum_save ''/etc/yum.repos.d/os.repo'' two_repos repos_dir_fs
       = Inr (repos_dir_fs @ [(''/etc/yum.repos.d/os.repo'', File
           ''[updates]\<newline>baseurl = http://u/\<newline>\<newline>[base]\<newline>baseurl = http://b/\<newline>\<newline>'')])
   \<and> yum_dump two_repos
       = ''[base]\<newline>baseurl = http://b/\<newline>\<newline>[updates]\<newline>baseurl = http://u/\<newline>\<newline>''
   \<and> read_file (repos_dir_fs @ [(''/etc/yum.repos.d/os.repo'', File
           ''[updates]\<newline>baseurl = http://u/\<newline>\<newline>[base]\<newline>baseurl = http://b/\<newline>\<newline>'')])
         ''/etc/yum.repos.d/os.repo'' \<noteq> Some (yum_dump two_repos)"
  by code_simp

text \<open>
  The hypotheses of \<open>save_writes_document\<close> hold for a document with one section; the file
  then holds the text of \<^verbatim>\<open>dump\<close>.
\<close>

theorem save_writes_document_witness:
  "sections one_repo \<noteq> [] \<and> map_of repos_dir_fs ''/etc/yum.repos.d/epel.repo'' \<noteq> Some Dir
   \<and> in_dump_order one_repo
   \<and> yum_save ''/etc/yum.repos.d/epel.repo'' one_repo repos_dir_fs
       = Inr (AList.update ''/etc/yum.repos.d/epel.repo'' (File (yum_dump one_repo)) repos_dir_fs)"
proof -
  have 1: "sections one_repo \<noteq> []" by (simp add: one_repo_def)
  have 2: "map_of repos_dir_fs ''/etc/yum.repos.d/epel.repo'' \<noteq> Some Dir"
    by (simp add: repos_dir_fs_def)
  have 3: "in_dump_order one_repo" by code_simp
  show ?thesis using save_writes_document [OF 1 2] 1 2 3 by simp
qed


section \<open>Properties of \<^verbatim>\<open>YumRepo.add\<close>\<close>

lemma py_lower_DEFAULT: "py_lower ''DEFAULT'' = ''default''"
  by code_simp

lemma map_entry_last:
  "s \<notin> fst ` set pre \<Longrightarrow> AList.map_entry s f (pre @ [(s, opts)]) = pre @ [(s, f opts)]"
  by (induction pre) auto

lemma set_all_defaults:
  "set_all cfg [] kvs = Inr (cfg\<lparr>defaults := set_opts kvs (defaults cfg)\<rparr>)"
proof (induction kvs arbitrary: cfg)
  case Nil
  then show ?case by (simp add: set_opts_def)
next
  case (Cons kv kvs)
  obtain k v where kv: "kv = (k, v)" by (cases kv)
  show ?case unfolding kv by (simp add: cp_set_def Cons.IH set_opts_def)
qed

lemma set_all_section:
  assumes "s \<noteq> []" and "s \<noteq> ''DEFAULT''" and "s \<notin> fst ` set pre"
  shows "sections cfg = pre @ [(s, opts)] \<Longrightarrow>
         set_all cfg s kvs = Inr (cfg\<lparr>sections := pre @ [(s, set_opts kvs opts)]\<rparr>)"
proof (induction kvs arbitrary: cfg opts)
  case Nil
  then show ?case by (simp add: set_opts_def)
next
  case (Cons kv kvs)
  obtain k v where kv: "kv = (k, v)" by (cases kv)
  let ?cfg' = "cfg\<lparr>sections := pre @ [(s, AList.update (py_lower k) v opts)]\<rparr>"
  have step: "cp_set cfg s k v = Inr ?cfg'"
    using assms Cons.prems by (simp add: cp_set_def cp_has_section_def cp_sections_def map_entry_last)
  have "set_all ?cfg' s kvs = Inr (?cfg'\<lparr>sections := pre @ [(s, set_opts kvs (AList.update (py_lower k) v opts))]\<rparr>)"
    by (rule Cons.IH) simp
  then show ?case unfolding kv using step by (simp add: set_opts_def)
qed

lemma yum_remove_str:
  "yum_remove (PStr s) cfg = Inr (cfg\<lparr>sections := AList.delete s (sections cfg)\<rparr>)"
  by (cases "s \<in> fst ` set (sections cfg)")
     (simp_all add: yum_remove_def has_section_v_def cp_has_section_def cp_sections_def
      cp_remove_section_def)

lemma add_section_after_remove:
  "py_lower s \<noteq> ''default'' \<Longrightarrow>
   add_section_v (cfg\<lparr>sections := AList.delete s (sections cfg)\<rparr>) (PStr s)
     = Inr (s, cfg\<lparr>sections := AList.delete s (sections cfg) @ [(s, [])]\<rparr>)"
  by (simp add: add_section_v_def cp_add_section_def cp_has_section_def cp_sections_def
      AList.delete_notin_dom)

lemma yum_add_str:
  "yum_add ps (PStr s) cfg =
     (if py_lower s = ''default'' then Inl (Uncaught ''ValueError'')
      else case url_missing ps of
             Inl e \<Rightarrow> Inl e
           | Inr True \<Rightarrow> Inl UrlRequiredForAdd
           | Inr False \<Rightarrow> Inr (added ps s cfg))"
proof (cases "py_lower s = ''default''")
  case True
  then show ?thesis
    by (simp add: yum_add_def yum_remove_str add_section_v_def cp_add_section_def)
next
  case False
  then have nd: "s \<noteq> ''DEFAULT''" using py_lower_DEFAULT by auto
  let ?cfg2 = "cfg\<lparr>sections := AList.delete s (sections cfg) @ [(s, [])]\<rparr>"
  have sa: "set_all ?cfg2 s kvs = Inr (added_with kvs)" if "added_with = (\<lambda>kvs. if s = [] then
        cfg\<lparr>defaults := set_opts kvs (defaults cfg),
            sections := AList.delete s (sections cfg) @ [(s, [])]\<rparr>
      else
        cfg\<lparr>sections := AList.delete s (sections cfg) @ [(s, set_opts kvs [])]\<rparr>)" for kvs added_with
  proof (cases "s = []")
    case True
    then show ?thesis using that by (simp add: set_all_defaults)
  next
    case ne: False
    have "set_all ?cfg2 s kvs = Inr (?cfg2\<lparr>sections := AList.delete s (sections cfg) @ [(s, set_opts kvs [])]\<rparr>)"
      using ne nd by (intro set_all_section) (simp_all add: AList.delete_notin_dom)
    then show ?thesis using ne that by simp
  qed
  show ?thesis
    using False
    by (simp add: yum_add_def yum_remove_str add_section_after_remove sa added_def
        split: sum.splits bool.splits)
qed

lemma yum_add_not_str:
  "(\<forall>s. section \<noteq> PStr s) \<Longrightarrow> \<exists>e. yum_add ps section cfg = Inl e"
  by (cases "section")
     (simp_all add: yum_add_def yum_remove_def has_section_v_def add_section_v_def)


lemma allowed_lower: "k \<in> set allowed_params \<Longrightarrow> py_lower k = k"
proof -
  have "list_all (\<lambda>k. py_lower k = k) allowed_params"
    by (simp add: allowed_params_def py_lower_def lower_char_def)
  then show "k \<in> set allowed_params \<Longrightarrow> py_lower k = k" by (simp add: list_all_iff)
qed

lemma distinct_sort_key_fst: "distinct (map fst (sort_key fst xs)) = distinct (map fst xs)"
proof -
  have "distinct (map fst ys) \<longleftrightarrow> card (fst ` set ys) = length ys" for ys :: "('a \<times> 'b) list"
    using distinct_card [of "map fst ys"] card_distinct [of "map fst ys"] by auto
  then show ?thesis by simp
qed

lemma distinct_sorted_items: "distinct (map fst (sorted_items ps))"
  by (simp add: sorted_items_def distinct_sort_key_fst)

lemma sorted_items_lookup: "(k, pv) \<in> set (sorted_items ps) \<longleftrightarrow> map_of ps k = Some pv"
proof -
  have "map_of (AList.clearjunk ps) k = Some pv \<longleftrightarrow> (k, pv) \<in> set (AList.clearjunk ps)"
    by (rule map_of_eq_Some_iff) (rule AList.distinct_clearjunk)
  then have "(k, pv) \<in> set (AList.clearjunk ps) \<longleftrightarrow> map_of ps k = Some pv"
    by (simp only: AList.map_of_clearjunk)
  then show ?thesis by (simp only: sorted_items_def set_sort)
qed

lemma options_to_set_alt: "options_to_set ps = concat (map option_of (sorted_items ps))"
  by (simp add: options_to_set_def option_of_def)

lemma option_of_keys: "kv \<in> set (option_of x) \<Longrightarrow> fst kv = fst x"
  by (cases x) (auto simp: option_of_def split: option.splits if_splits)

lemma map_fst_option_of:
  "map fst (option_of x) =
     (if coerce (fst x) (snd x) \<noteq> None \<and> fst x \<in> set allowed_params then [fst x] else [])"
  by (cases x) (simp add: option_of_def split: option.splits)

lemma map_fst_concat_option_of:
  "map fst (concat (map option_of xs)) =
     map fst (filter (\<lambda>x. coerce (fst x) (snd x) \<noteq> None \<and> fst x \<in> set allowed_params) xs)"
  by (induction xs) (simp_all add: map_fst_option_of)

lemma distinct_concat_option_of:
  "distinct (map fst xs) \<Longrightarrow> distinct (map fst (concat (map option_of xs)))"
  unfolding map_fst_concat_option_of by (rule distinct_map_filter)

lemma distinct_options_to_set: "distinct (map fst (options_to_set ps))"
  unfolding options_to_set_alt by (intro distinct_concat_option_of distinct_sorted_items)

lemma option_of_mem:
  "(k, v) \<in> set (option_of (k', pv)) \<longleftrightarrow> k = k' \<and> coerce k pv = Some v \<and> k \<in> set allowed_params"
  by (auto simp: option_of_def split: option.splits)

lemma options_to_set_iff:
  "(k, v) \<in> set (options_to_set ps) \<longleftrightarrow>
     k \<in> set allowed_params \<and> (\<exists>pv. map_of ps k = Some pv \<and> coerce k pv = Some v)"
proof -
  have "(k, v) \<in> set (options_to_set ps) \<longleftrightarrow>
          (\<exists>x \<in> set (sorted_items ps). (k, v) \<in> set (option_of x))"
    unfolding options_to_set_alt by simp
  also have "\<dots> \<longleftrightarrow> (\<exists>k' pv. (k', pv) \<in> set (sorted_items ps) \<and> (k, v) \<in> set (option_of (k', pv)))"
    by auto
  also have "\<dots> \<longleftrightarrow> (\<exists>pv. (k, pv) \<in> set (sorted_items ps) \<and> coerce k pv = Some v \<and> k \<in> set allowed_params)"
    unfolding option_of_mem by blast
  finally show ?thesis by (auto simp: sorted_items_lookup)
qed

lemma options_to_set_allowed: "kv \<in> set (options_to_set ps) \<Longrightarrow> fst kv \<in> set allowed_params"
  using options_to_set_iff [of "fst kv" "snd kv" ps] by simp




lemma set_opts_dict_update:
  "\<forall>kv \<in> set kvs. py_lower (fst kv) = fst kv \<Longrightarrow> set_opts kvs d = dict_update d kvs"
  unfolding set_opts_def dict_update_def
  by (induction kvs arbitrary: d) (auto simp: case_prod_beta)

lemma set_opts_options: "set_opts (options_to_set ps) d = dict_update d (options_to_set ps)"
  by (intro set_opts_dict_update ballI allowed_lower options_to_set_allowed)

lemma set_opts_options_Nil: "set_opts (options_to_set ps) [] = options_to_set ps"
  using dict_update_fresh [OF distinct_options_to_set, of "[]" ps] by (simp add: set_opts_options)

lemma map_of_dict_update:
  "distinct (map fst kvs) \<Longrightarrow>
   map_of (dict_update d kvs) k = (case map_of kvs k of Some v \<Rightarrow> Some v | None \<Rightarrow> map_of d k)"
proof (induction kvs arbitrary: d)
  case Nil
  then show ?case by (simp add: dict_update_def)
next
  case (Cons kv kvs)
  obtain k' v' where kv: "kv = (k', v')" by (cases kv)
  have IH: "map_of (dict_update (AList.update k' v' d) kvs) k =
        (case map_of kvs k of Some v \<Rightarrow> Some v | None \<Rightarrow> map_of (AList.update k' v' d) k)"
    using Cons.prems by (intro Cons.IH) simp
  have none: "map_of kvs k' = None" using Cons.prems kv by (simp add: map_of_eq_None_iff)
  have unf: "dict_update d (kv # kvs) = dict_update (AList.update k' v' d) kvs"
    by (simp add: dict_update_def kv)
  show ?case unfolding unf IH using none kv
    by (auto simp: AList.update_conv' split: option.splits)
qed

lemma dict_update_same:
  "\<forall>kv \<in> set kvs. map_of d (fst kv) = Some (snd kv) \<Longrightarrow> dict_update d kvs = d"
proof (induction kvs)
  case Nil
  then show ?case by (simp add: dict_update_def)
next
  case (Cons kv kvs)
  then have "AList.update (fst kv) (snd kv) d = d" by (intro AList.update_triv) simp
  then have "dict_update d (kv # kvs) = dict_update d kvs"
    by (simp add: dict_update_def case_prod_beta)
  then show ?case using Cons by simp
qed

lemma dict_update_idem:
  assumes "distinct (map fst kvs)"
  shows "dict_update (dict_update d kvs) kvs = dict_update d kvs"
proof (rule dict_update_same, rule ballI)
  fix kv assume "kv \<in> set kvs"
  then have "map_of kvs (fst kv) = Some (snd kv)" using assms by (intro map_of_is_SomeI) simp_all
  then show "map_of (dict_update d kvs) (fst kv) = Some (snd kv)"
    by (simp add: map_of_dict_update [OF assms])
qed

lemma delete_append_key: "AList.delete s (xs @ [(s, v)]) = AList.delete s xs"
  by (simp add: AList.delete_eq)

lemma added_idem: "added ps s (added ps s cfg) = added ps s cfg"
  by (simp add: added_def delete_append_key AList.delete_idem set_opts_options
      dict_update_idem [OF distinct_options_to_set])




lemma yum_add_succeeds:
  assumes "url_given ps" and "py_lower s \<noteq> ''default''"
  shows "yum_add ps (PStr s) cfg = Inr (added ps s cfg)"
proof -
  have "url_missing ps = Inr False"
    using assms(1) by (auto simp: url_given_def url_missing_def py_get_def split: option.splits)
  then show ?thesis using assms(2) by (simp add: yum_add_str)
qed

lemma yum_add_InrD:
  assumes "yum_add ps sec cfg = Inr cfg'"
  shows "\<exists>s. sec = PStr s \<and> py_lower s \<noteq> ''default'' \<and> url_missing ps = Inr False
             \<and> cfg' = added ps s cfg"
proof -
  obtain s where s: "sec = PStr s" using yum_add_not_str [of sec ps cfg] assms by auto
  show ?thesis using assms unfolding s yum_add_str
    by (auto split: if_splits sum.splits bool.splits)
qed

text \<open>
  Claim C4. For a request that gives \<^verbatim>\<open>baseurl\<close> or \<^verbatim>\<open>mirrorlist\<close>: when \<^verbatim>\<open>YumRepo.add\<close>
  has been applied to a document, applying it again with the same parameters succeeds and
  leaves \<^verbatim>\<open>dump\<close> as it is, so that \<^verbatim>\<open>changed = yumrepo_before != yumrepo_after\<close> is
  false. (By \<open>yum_add_succeeds\<close> the first application succeeds for every section name
  that is a string other than \<^verbatim>\<open>default\<close>, which the library refuses.)
\<close>

theorem add_idempotent:
  assumes "url_given ps" and "yum_add ps sec cfg = Inr cfg1"
  shows "\<exists>cfg2. yum_add ps sec cfg1 = Inr cfg2 \<and> (yum_dump cfg1 \<noteq> yum_dump cfg2) = False"
proof -
  obtain s where s: "sec = PStr s" "py_lower s \<noteq> ''default''" "cfg1 = added ps s cfg"
    using yum_add_InrD [OF assms(2)] by blast
  have "yum_add ps sec cfg1 = Inr (added ps s cfg1)"
    unfolding s(1) using assms(1) s(2) by (rule yum_add_succeeds)
  then show ?thesis by (simp add: s(3) added_idem)
qed

text \<open>
  The hypotheses of \<open>add_idempotent\<close> hold for the request \<^verbatim>\<open>epel\<close> on a document with
  two sections.
\<close>

theorem add_idempotent_witness:
  "url_given epel_params \<and> yum_add epel_params (PStr ''epel'') old_epel = Inr new_epel
   \<and> (\<exists>cfg2. yum_add epel_params (PStr ''epel'') new_epel = Inr cfg2
              \<and> (yum_dump new_epel \<noteq> yum_dump cfg2) = False)"
proof -
  have 1: "url_given epel_params" by code_simp
  have 2: "yum_add epel_params (PStr ''epel'') old_epel = Inr new_epel" by code_simp
  show ?thesis using add_idempotent [OF 1 2] 1 2 by blast
qed

lemma dom_dict_update: "fst ` set (dict_update d kvs) = fst ` set d \<union> fst ` set kvs"
proof (induction kvs arbitrary: d)
  case Nil
  then show ?case by (simp add: dict_update_def)
next
  case (Cons kv kvs)
  have "dict_update d (kv # kvs) = dict_update (AList.update (fst kv) (snd kv) d) kvs"
    by (simp add: dict_update_def case_prod_beta)
  then show ?case using Cons.IH [of "AList.update (fst kv) (snd kv) d"]
    by (auto simp: AList.dom_update)
qed

lemma map_of_last_entry: "s \<notin> fst ` set pre \<Longrightarrow> map_of (pre @ [(s, x)]) s = Some x"
  by (induction pre) auto

lemma added_section:
  "map_of (sections (added ps s cfg)) s = Some (if s = [] then [] else options_to_set ps)"
proof -
  have "map_of (AList.delete t (sections cfg) @ [(t, x)]) t = Some x" for x t
    by (rule map_of_last_entry) (rule AList.delete_notin_dom)
  then show ?thesis by (simp add: added_def set_opts_options_Nil del: map_of_append)
qed

lemma added_defaults_keys:
  "fst ` set (defaults (added ps s cfg)) \<subseteq> fst ` set (defaults cfg) \<union> fst ` set (options_to_set ps)"
  by (auto simp: added_def set_opts_options dom_dict_update)

lemma not_supplied:
  assumes "map_of ps b = None \<or> map_of ps b = Some PNone"
  shows "b \<notin> fst ` set (options_to_set ps)"
proof
  assume "b \<in> fst ` set (options_to_set ps)"
  then obtain v where "(b, v) \<in> set (options_to_set ps)" by auto
  then obtain pv where "map_of ps b = Some pv" "coerce b pv = Some v"
    unfolding options_to_set_iff by blast
  then show False using assms by (auto simp: coerce_def)
qed

text \<open>
  Claim C5. After \<^verbatim>\<open>YumRepo.add\<close> the section of the request holds only options that the
  request sets, whatever the section held before: an option \<open>b\<close> that the request does
  not give (missing or \<^verbatim>\<open>None\<close>) is not in the section, and it is not among the items
  that \<^verbatim>\<open>dump\<close> shows for the section unless it is a \<^verbatim>\<open>DEFAULT\<close> option of the document.
\<close>

theorem add_replaces_section:
  assumes "yum_add ps sec cfg = Inr cfg'"
    and "map_of ps b = None \<or> map_of ps b = Some PNone"
  shows "\<exists>s opts. sec = PStr s \<and> map_of (sections cfg') s = Some opts
           \<and> set opts \<subseteq> set (options_to_set ps) \<and> b \<notin> fst ` set opts
           \<and> (b \<notin> fst ` set (defaults cfg) \<longrightarrow>
                (\<exists>its. cp_items cfg' s = Inr its \<and> b \<notin> fst ` set its))"
proof -
  obtain s where s: "sec = PStr s" "cfg' = added ps s cfg"
    using yum_add_InrD [OF assms(1)] by blast
  let ?opts = "if s = [] then [] else options_to_set ps"
  have sec: "map_of (sections cfg') s = Some ?opts" unfolding s(2) by (rule added_section)
  have nb: "b \<notin> fst ` set (options_to_set ps)" using assms(2) by (rule not_supplied)
  then have nb': "b \<notin> fst ` set ?opts" by simp
  have items: "b \<notin> fst ` set its" if "b \<notin> fst ` set (defaults cfg)"
      and "cp_items cfg' s = Inr its" for its
  proof -
    have "b \<notin> fst ` set (defaults cfg')" using that(1) nb added_defaults_keys [of ps s cfg] s(2) by blast
    then have "b \<notin> fst ` set (dict_update (defaults cfg') ?opts)"
      using nb' unfolding dom_dict_update by blast
    moreover have "its = filter (\<lambda>(k, v). k \<noteq> ''__name__'') (dict_update (defaults cfg') ?opts)"
      using that(2) sec by (simp add: cp_items_def)
    ultimately show ?thesis by auto
  qed
  have "\<exists>its. cp_items cfg' s = Inr its" using sec by (simp add: cp_items_def)
  then show ?thesis using s(1) sec nb' items by (intro exI [of _ s] exI [of _ ?opts]) auto
qed

text \<open>
  The hypotheses of \<open>add_replaces_section\<close> hold for the request \<^verbatim>\<open>epel\<close>, which has no
  \<^verbatim>\<open>gpgkey\<close>, on a document whose section \<^verbatim>\<open>epel\<close> has one.
\<close>

theorem add_replaces_section_witness:
  "yum_add epel_params (PStr ''epel'') old_epel = Inr new_epel
   \<and> map_of (sections old_epel) ''epel'' = Some [(''baseurl'', ''http://old/''), (''gpgkey'', ''http://old/key'')]
   \<and> map_of epel_params ''gpgkey'' = Some PNone
   \<and> (\<exists>opts. map_of (sections new_epel) ''epel'' = Some opts \<and> ''gpgkey'' \<notin> fst ` set opts)"
proof -
  have 1: "yum_add epel_params (PStr ''epel'') old_epel = Inr new_epel" by code_simp
  have 2: "map_of epel_params ''gpgkey'' = None \<or> map_of epel_params ''gpgkey'' = Some PNone"
    by (simp add: epel_params_def)
  have 3: "map_of (sections old_epel) ''epel'' = Some [(''baseurl'', ''http://old/''), (''gpgkey'', ''http://old/key'')]"
    by (simp add: old_epel_def)
  have 4: "map_of epel_params ''gpgkey'' = Some PNone" by (simp add: epel_params_def)
  show ?thesis using add_replaces_section [OF 1 2] 1 3 4 by blast
qed

section \<open>Properties of the sweep\<close>

lemma set_keep_first: "set (keep_first acc ls) = set acc \<union> set ls"
  by (induction ls arbitrary: acc) auto

lemma distinct_keep_first: "distinct acc \<Longrightarrow> distinct (keep_first acc ls)"
  by (induction ls arbitrary: acc) auto

lemma splitlines_rebuilt:
  "splitlines (ledger_text (keep_first [] (splitlines c))) = keep_first [] (splitlines c)"
  by (rule splitlines_ledger_text) (simp add: set_keep_first splitlines_clean)

lemma unmanaged_list:
  assumes "map_of ps ''ignore_repo_files'' = Some (PList exempt)"
  shows "unmanaged ps managed x = Inr (x \<notin> set managed \<and> x \<notin> set exempt)"
  using assms by (simp add: unmanaged_def py_get_def py_in_def)

lemma os_remove_SomeD:
  "os_remove fs p = Some fs1 \<Longrightarrow> (\<exists>c. map_of fs p = Some (File c)) \<and> fs1 = AList.delete p fs"
  by (auto simp: os_remove_def split: option.splits node.splits)

lemma process_loop_live:
  assumes exempt: "map_of ps ''ignore_repo_files'' = Some (PList exempt)"
  shows "process_loop False file ps managed fl ch fs0 = Inr (changed, fs') \<Longrightarrow>
         distinct fl \<Longrightarrow> file \<notin> set fl \<Longrightarrow>
         \<exists>c. map_of fs0 file = Some (File c) \<and> set (splitlines c) \<subseteq> set managed \<Longrightarrow>
         (changed \<longleftrightarrow> ch \<or> (\<exists>p \<in> set fl. repo_id p \<notin> set managed \<and> repo_id p \<notin> set exempt))
         \<and> (\<forall>p. p \<noteq> file \<longrightarrow>
               map_of fs' p = (if p \<in> set fl \<and> repo_id p \<notin> set managed \<and> repo_id p \<notin> set exempt
                               then None else map_of fs0 p))
         \<and> (\<exists>c. map_of fs' file = Some (File c) \<and> set (splitlines c) \<subseteq> set managed)"
proof (induction fl arbitrary: ch fs0)
  case Nil
  then show ?case by simp
next
  case (Cons f fl)
  let ?U = "\<lambda>p. repo_id p \<notin> set managed \<and> repo_id p \<notin> set exempt"
  have um: "unmanaged ps managed (repo_id f) = Inr (?U f)" using exempt by (rule unmanaged_list)
  have dist: "distinct fl" and nf: "file \<notin> set fl" and ff: "f \<noteq> file" and fnot: "f \<notin> set fl"
    using Cons.prems(2,3) by auto
  show ?case
  proof (cases "?U f")
    case False
    then have run: "process_loop False file ps managed fl ch fs0 = Inr (changed, fs')"
      using Cons.prems(1) um by auto
    have IH: "(changed \<longleftrightarrow> ch \<or> (\<exists>p \<in> set fl. ?U p))
         \<and> (\<forall>p. p \<noteq> file \<longrightarrow> map_of fs' p = (if p \<in> set fl \<and> ?U p then None else map_of fs0 p))
         \<and> (\<exists>c. map_of fs' file = Some (File c) \<and> set (splitlines c) \<subseteq> set managed)"
      using Cons.IH [OF run dist nf Cons.prems(4)] .
    show ?thesis using IH False by auto
  next
    case True
    obtain c where c: "map_of fs0 file = Some (File c)" "set (splitlines c) \<subseteq> set managed"
      using Cons.prems(4) by blast
    obtain fs1 where rm: "os_remove fs0 f = Some fs1"
      using Cons.prems(1) um True by (cases "os_remove fs0 f") auto
    then have fs1: "fs1 = AList.delete f fs0" using os_remove_SomeD by blast
    have led1: "map_of fs1 file = Some (File c)" using c(1) ff by (simp add: fs1)
    have absent: "PStr (repo_id f) \<notin> set (map PStr (splitlines c))" using True c(2) by auto
    let ?c2 = "ledger_text (keep_first [] (splitlines c))"
    let ?fs2 = "AList.update file (File ?c2) fs1"
    have mr: "mm_remove False file (PStr (repo_id f)) fs1 = Inr (False, ?fs2)"
      using mm_remove_absent [OF led1 absent, of False] by simp
    have run: "process_loop False file ps managed fl True ?fs2 = Inr (changed, fs')"
      using Cons.prems(1) um True rm mr by simp
    have inv2: "\<exists>c. map_of ?fs2 file = Some (File c) \<and> set (splitlines c) \<subseteq> set managed"
      using c(2) by (simp add: AList.update_conv' splitlines_rebuilt set_keep_first)
    have IH: "(changed \<longleftrightarrow> True \<or> (\<exists>p \<in> set fl. ?U p))
         \<and> (\<forall>p. p \<noteq> file \<longrightarrow> map_of fs' p = (if p \<in> set fl \<and> ?U p then None else map_of ?fs2 p))
         \<and> (\<exists>c. map_of fs' file = Some (File c) \<and> set (splitlines c) \<subseteq> set managed)"
      using Cons.IH [OF run dist nf inv2] .
    have other: "map_of ?fs2 p = (if p = f then None else map_of fs0 p)" if "p \<noteq> file" for p
      using that by (simp add: AList.update_conv' fs1 AList.delete_conv')
    show ?thesis
    proof (intro conjI allI impI)
      show "changed \<longleftrightarrow> ch \<or> (\<exists>p \<in> set (f # fl). ?U p)" using IH True by simp
    next
      fix p assume p: "p \<noteq> file"
      have "map_of fs' p = (if p \<in> set fl \<and> ?U p then None else map_of ?fs2 p)" using IH p by blast
      then show "map_of fs' p = (if p \<in> set (f # fl) \<and> ?U p then None else map_of fs0 p)"
        using other [OF p] True fnot by auto
    next
      show "\<exists>c. map_of fs' file = Some (File c) \<and> set (splitlines c) \<subseteq> set managed" using IH by blast
    qed
  qed
qed

lemma distinct_glob_repo: "distinct (glob_repo fs dir)"
  by (simp add: glob_repo_def)

lemma ledger_not_globbed: "dir @ ''/.managed'' \<notin> set (glob_repo fs dir)"
  by (simp add: glob_repo_def is_repo_name_def)


text \<open>
  Claim C6. Let the ledger file exist, let \<^verbatim>\<open>ignore_repo_files\<close> be a list, and let
  \<^verbatim>\<open>ManagedMode.process\<close> run to its end outside check mode. Then of the paths that
  \<^verbatim>\<open>glob\<close> finds, exactly those are gone whose identifier is neither a line of the ledger
  nor in the list, and the others are as they were; \<^verbatim>\<open>changed\<close> is true if and only if
  there was such a path; and no path outside the listing but the ledger itself is touched.
\<close>

theorem sweep_deletes_unmanaged:
  assumes "map_of fs file = Some (File content)"
    and "map_of ps ''reposdir'' = Some (PStr dir)"
    and "file = dir @ ''/.managed''"
    and "map_of ps ''ignore_repo_files'' = Some (PList exempt)"
    and "mm_process False file ps fs = Inr (changed, fs')"
  shows "(\<forall>p \<in> set (glob_repo fs dir).
            if repo_id p \<notin> set (splitlines content) \<and> repo_id p \<notin> set exempt
            then map_of fs' p = None else map_of fs' p = map_of fs p)
         \<and> (changed \<longleftrightarrow>
              (\<exists>p \<in> set (glob_repo fs dir).
                  repo_id p \<notin> set (splitlines content) \<and> repo_id p \<notin> set exempt))
         \<and> (\<forall>p. p \<notin> set (glob_repo fs dir) \<and> p \<noteq> file \<longrightarrow> map_of fs' p = map_of fs p)"
proof -
  let ?fl = "glob_repo fs dir"
  let ?managed = "splitlines content"
  have run: "process_loop False file ps ?managed ?fl False fs = Inr (changed, fs')"
    using assms(1,2,5) by (simp add: mm_process_def os_path_isfile_def read_file_def py_get_def)
  have nf: "file \<notin> set ?fl" unfolding assms(3) by (rule ledger_not_globbed)
  have inv: "\<exists>c. map_of fs file = Some (File c) \<and> set (splitlines c) \<subseteq> set ?managed"
    using assms(1) by auto
  have L: "(changed \<longleftrightarrow> False \<or> (\<exists>p \<in> set ?fl. repo_id p \<notin> set ?managed \<and> repo_id p \<notin> set exempt))
         \<and> (\<forall>p. p \<noteq> file \<longrightarrow>
               map_of fs' p = (if p \<in> set ?fl \<and> repo_id p \<notin> set ?managed \<and> repo_id p \<notin> set exempt
                               then None else map_of fs p))"
    using process_loop_live [OF assms(4) run distinct_glob_repo nf inv] by blast
  show ?thesis
  proof (intro conjI ballI allI impI)
    fix p assume "p \<in> set ?fl"
    then have "p \<noteq> file" using nf by auto
    then show "if repo_id p \<notin> set ?managed \<and> repo_id p \<notin> set exempt
            then map_of fs' p = None else map_of fs' p = map_of fs p"
      using L \<open>p \<in> set ?fl\<close> by auto
  next
    show "changed \<longleftrightarrow> (\<exists>p \<in> set ?fl. repo_id p \<notin> set ?managed \<and> repo_id p \<notin> set exempt)"
      using L by simp
  next
    fix p assume "p \<notin> set ?fl \<and> p \<noteq> file"
    then show "map_of fs' p = map_of fs p" using L by auto
  qed
qed

text \<open>
  The hypotheses of \<open>sweep_deletes_unmanaged\<close> hold for the ledger entry \<^verbatim>\<open>a\<close>, the
  exemption \<^verbatim>\<open>b\<close> and the repo files \<^verbatim>\<open>a.repo\<close>, \<^verbatim>\<open>b.repo\<close>, \<^verbatim>\<open>c.repo\<close>: only
  \<^verbatim>\<open>c.repo\<close> is deleted, and \<^verbatim>\<open>changed\<close> is true.
\<close>

theorem sweep_deletes_unmanaged_witness:
  "map_of sweep_fs ''/etc/yum.repos.d/.managed'' = Some (File ''a\<newline>'')
   \<and> map_of sweep_params ''reposdir'' = Some (PStr ''/etc/yum.repos.d'')
   \<and> map_of sweep_params ''ignore_repo_files'' = Some (PList [''b''])
   \<and> mm_process False ''/etc/yum.repos.d/.managed'' sweep_params sweep_fs = Inr (True, swept_fs)
   \<and> glob_repo sweep_fs ''/etc/yum.repos.d''
        = [''/etc/yum.repos.d/a.repo'', ''/etc/yum.repos.d/b.repo'', ''/etc/yum.repos.d/c.repo'']
   \<and> map_of swept_fs ''/etc/yum.repos.d/c.repo'' = None
   \<and> map_of swept_fs ''/etc/yum.repos.d/a.repo'' = map_of sweep_fs ''/etc/yum.repos.d/a.repo''
   \<and> map_of swept_fs ''/etc/yum.repos.d/b.repo'' = map_of sweep_fs ''/etc/yum.repos.d/b.repo''"
proof -
  have 1: "map_of sweep_fs ''/etc/yum.repos.d/.managed'' = Some (File ''a\<newline>'')"
    by (simp add: sweep_fs_def)
  have 2: "map_of sweep_params ''reposdir'' = Some (PStr ''/etc/yum.repos.d'')"
    by (simp add: sweep_params_def)
  have 3: "''/etc/yum.repos.d/.managed'' = ''/etc/yum.repos.d'' @ ''/.managed''" by simp
  have 4: "map_of sweep_params ''ignore_repo_files'' = Some (PList [''b''])"
    by (simp add: sweep_params_def)
  have 5: "mm_process False ''/etc/yum.repos.d/.managed'' sweep_params sweep_fs = Inr (True, swept_fs)"
    by code_simp
  have 6: "glob_repo sweep_fs ''/etc/yum.repos.d''
        = [''/etc/yum.repos.d/a.repo'', ''/etc/yum.repos.d/b.repo'', ''/etc/yum.repos.d/c.repo'']"
    by code_simp
  have 7: "repo_id ''/etc/yum.repos.d/a.repo'' = ''a''" "repo_id ''/etc/yum.repos.d/b.repo'' = ''b''"
    "repo_id ''/etc/yum.repos.d/c.repo'' = ''c''" "splitlines ''a\<newline>'' = [''a'']"
    by code_simp+
  show ?thesis
    using sweep_deletes_unmanaged [OF 1 2 3 4 5] 1 2 4 5 by (simp add: 6 7)
qed

end
